theory Spec2Isabelle
  imports Main "HOL-Library.Char_ord" "HOL-Library.List_Lexorder"
    "HOL-Library.Product_Lexorder" "HOL-Library.Multiset"
begin

section \<open>Values of Python's datetime module\<close>

text \<open>
  \<^verbatim>\<open>main.py\<close> works with \<^verbatim>\<open>datetime.date\<close>, \<^verbatim>\<open>datetime.time\<close>,
  \<^verbatim>\<open>datetime.datetime\<close> and \<^verbatim>\<open>datetime.timedelta\<close>. A date is its three
  fields, a time its four fields (all times in the program are naive: they come from
  \<^verbatim>\<open>.time()\<close>, \<^verbatim>\<open>toPyTime()\<close> or the literal \<^verbatim>\<open>time(23, 59)\<close>), a datetime is a
  date with a time. Every exception the module raises is a value of \<open>py_error\<close>.
\<close>

datatype py_error = ValueError | OverflowError

record date =
  year :: nat
  month :: nat
  day :: nat

record time =
  hour :: nat
  minute :: nat
  second :: nat
  microsecond :: nat

record datetime =
  date_part :: date
  time_part :: time

definition is_leap :: "nat \<Rightarrow> bool" where
  "is_leap y = (y mod 4 = 0 \<and> (y mod 100 \<noteq> 0 \<or> y mod 400 = 0))"

definition days_in_month :: "nat \<Rightarrow> nat \<Rightarrow> nat" where
  "days_in_month y m =
     (if m = 2 then (if is_leap y then 29 else 28)
      else if m = 4 \<or> m = 6 \<or> m = 9 \<or> m = 11 then 30 else 31)"

text \<open>The ranges the constructors \<^verbatim>\<open>date(...)\<close> and \<^verbatim>\<open>time(...)\<close> accept.\<close>

definition valid_date :: "date \<Rightarrow> bool" where
  "valid_date d = (1 \<le> year d \<and> year d \<le> 9999 \<and> 1 \<le> month d \<and> month d \<le> 12 \<and>
     1 \<le> day d \<and> day d \<le> days_in_month (year d) (month d))"

definition valid_time :: "time \<Rightarrow> bool" where
  "valid_time t = (hour t < 24 \<and> minute t < 60 \<and> second t < 60 \<and> microsecond t < 1000000)"


definition combine :: "date \<Rightarrow> time \<Rightarrow> datetime" where
  "combine d t = \<lparr>date_part = d, time_part = t\<rparr>"

text \<open>
  Python compares two datetimes field by field, year first: the lexicographic order of
  the seven fields.
\<close>

definition dt_fields :: "datetime \<Rightarrow> nat \<times> nat \<times> nat \<times> nat \<times> nat \<times> nat \<times> nat" where
  "dt_fields dt = (year (date_part dt), month (date_part dt), day (date_part dt),
     hour (time_part dt), minute (time_part dt), second (time_part dt),
     microsecond (time_part dt))"

definition dt_less :: "datetime \<Rightarrow> datetime \<Rightarrow> bool" where
  "dt_less a b = (dt_fields a < dt_fields b)"

definition dt_le :: "datetime \<Rightarrow> datetime \<Rightarrow> bool" where
  "dt_le a b = (dt_fields a \<le> dt_fields b)"

text \<open>\<^verbatim>\<open>datetime.max\<close> and the default end-of-day time \<^verbatim>\<open>time(23, 59)\<close>.\<close>

definition datetime_max :: datetime where
  "datetime_max = \<lparr>date_part = \<lparr>year = 9999, month = 12, day = 31\<rparr>,
     time_part = \<lparr>hour = 23, minute = 59, second = 59, microsecond = 999999\<rparr>\<rparr>"

definition end_of_day :: time where
  "end_of_day = \<lparr>hour = 23, minute = 59, second = 0, microsecond = 0\<rparr>"

subsection \<open>Ordinals and subtraction of minutes\<close>

text \<open>
  \<^verbatim>\<open>deadline_dt - timedelta(minutes=n)\<close> goes through the proleptic Gregorian ordinal
  of the date (day 1 is 0001-01-01), as \<^verbatim>\<open>_ymd2ord\<close> and \<^verbatim>\<open>_ord2ymd\<close> of the datetime
  module compute it. The result must have an ordinal in \<open>1..3652059\<close>; otherwise, and
  whenever the timedelta itself is out of range (then the result is out of range too),
  Python raises OverflowError.
\<close>

definition days_before_year :: "nat \<Rightarrow> int" where
  "days_before_year y =
     (let p = int y - 1 in p * 365 + p div 4 - p div 100 + p div 400)"

definition days_before_month :: "nat \<Rightarrow> nat \<Rightarrow> int" where
  "days_before_month y m =
     int ([0, 31, 59, 90, 120, 151, 181, 212, 243, 273, 304, 334] ! (m - 1))
       + (if m > 2 \<and> is_leap y then 1 else 0)"

definition toordinal :: "date \<Rightarrow> int" where
  "toordinal d = days_before_year (year d) + days_before_month (year d) (month d) + int (day d)"

definition MAXORDINAL :: int where
  "MAXORDINAL = 3652059"

definition fromordinal :: "int \<Rightarrow> date" where
  "fromordinal ord =
     (let n0 = ord - 1;
          n400 = n0 div 146097; r400 = n0 mod 146097;
          n100 = r400 div 36524; r100 = r400 mod 36524;
          n4 = r100 div 1461; r4 = r100 mod 1461;
          n1 = r4 div 365; n = r4 mod 365;
          y = n400 * 400 + 1 + n100 * 100 + n4 * 4 + n1
      in if n1 = 4 \<or> n100 = 4 then \<lparr>year = nat (y - 1), month = 12, day = 31\<rparr>
         else
           let leapyear = (n1 = 3 \<and> (n4 \<noteq> 24 \<or> n100 = 3));
               m0 = nat ((n + 50) div 32);
               preceding0 = days_before_month 1 m0 + (if m0 > 2 \<and> leapyear then 1 else 0);
               m = (if preceding0 > n then m0 - 1 else m0);
               preceding = (if preceding0 > n
                  then preceding0 - (int (days_in_month 1 m) + (if m = 2 \<and> leapyear then 1 else 0))
                  else preceding0)
           in \<lparr>year = nat y, month = m, day = nat (n - preceding + 1)\<rparr>)"

definition sub_minutes :: "datetime \<Rightarrow> int \<Rightarrow> py_error + datetime" where
  "sub_minutes dt n =
     (let t = time_part dt;
          secs = toordinal (date_part dt) * 86400
                 + int (hour t) * 3600 + int (minute t) * 60 + int (second t) - n * 60;
          days = secs div 86400;
          r = secs mod 86400
      in if 0 < days \<and> days \<le> MAXORDINAL
         then Inr (combine (fromordinal days)
                \<lparr>hour = nat (r div 3600), minute = nat (r mod 3600 div 60),
                 second = nat (r mod 60), microsecond = microsecond t\<rparr>)
         else Inl OverflowError)"

section \<open>The Task entity\<close>

record task =
  title :: string
  description :: string
  priority :: string
  deadline :: "date option"
  deadline_time :: "time option"
  notify_enabled :: bool
  notify_before_minutes :: int
  completed :: bool
  created_at :: string
  notified :: bool

text \<open>
  \<^verbatim>\<open>Task.get_deadline_datetime\<close>. A date and a time object are always true in a
  condition, so \<^verbatim>\<open>if self.deadline and self.deadline_time\<close> tests both for \<^verbatim>\<open>None\<close>.
\<close>

definition get_deadline_datetime :: "task \<Rightarrow> datetime option" where
  "get_deadline_datetime t =
     (case deadline t of
        Some d \<Rightarrow>
          (case deadline_time t of
             Some tm \<Rightarrow> Some (combine d tm)
           | None \<Rightarrow> Some (combine d end_of_day))
      | None \<Rightarrow> None)"

text \<open>
  \<^verbatim>\<open>Task.is_overdue\<close> and \<^verbatim>\<open>Task.should_notify\<close>; the first argument is the value
  \<^verbatim>\<open>datetime.now()\<close> returns inside the call.
\<close>

definition is_overdue :: "datetime \<Rightarrow> task \<Rightarrow> bool" where
  "is_overdue now t =
     (case get_deadline_datetime t of
        Some deadline_dt \<Rightarrow> if \<not> completed t then dt_less deadline_dt now else False
      | None \<Rightarrow> False)"

definition should_notify :: "datetime \<Rightarrow> task \<Rightarrow> py_error + bool" where
  "should_notify now t =
     (if \<not> notify_enabled t \<or> completed t \<or> notified t then Inr False
      else case get_deadline_datetime t of
             None \<Rightarrow> Inr False
           | Some deadline_dt \<Rightarrow>
               (case sub_minutes deadline_dt (notify_before_minutes t) of
                  Inl e \<Rightarrow> Inl e
                | Inr notification_time \<Rightarrow> Inr (dt_le notification_time now)))"

section \<open>Strings\<close>

text \<open>
  A Python string is modelled as a list of characters with code points below 256.
  \<open>py_lower\<close> is \<^verbatim>\<open>str.lower\<close> and \<open>py_strip\<close> is \<^verbatim>\<open>str.strip\<close> on that range;
  \<open>is_digit\<close> is what \<^verbatim>\<open>\d\<close> and the ISO parser accept there.
\<close>

definition is_digit :: "char \<Rightarrow> bool" where
  "is_digit c = (48 \<le> (of_char c :: nat) \<and> (of_char c :: nat) \<le> 57)"

definition digit_val :: "char \<Rightarrow> nat" where
  "digit_val c = of_char c - 48"

definition digit_char :: "nat \<Rightarrow> char" where
  "digit_char n = char_of (48 + n)"

definition digits_val :: "string \<Rightarrow> nat" where
  "digits_val s = foldl (\<lambda>a c. 10 * a + digit_val c) 0 s"

fun dec :: "nat \<Rightarrow> string" where
  "dec n = (if n < 10 then [digit_char n] else dec (n div 10) @ [digit_char (n mod 10)])"

declare dec.simps [simp del]

text \<open>\<open>zfill w n\<close> is \<^verbatim>\<open>"%0wd" % n\<close>: decimal, padded with zeros to at least \<open>w\<close> characters.\<close>

definition zfill :: "nat \<Rightarrow> nat \<Rightarrow> string" where
  "zfill w n = replicate (w - length (dec n)) (CHR ''0'') @ dec n"

definition py_lower_char :: "char \<Rightarrow> char" where
  "py_lower_char c =
     (let k = (of_char c :: nat)
      in if (65 \<le> k \<and> k \<le> 90) \<or> (192 \<le> k \<and> k \<le> 222 \<and> k \<noteq> 215)
         then char_of (k + 32) else c)"

definition py_lower :: "string \<Rightarrow> string" where
  "py_lower s = map py_lower_char s"

definition is_space :: "char \<Rightarrow> bool" where
  "is_space c =
     (let k = (of_char c :: nat)
      in (9 \<le> k \<and> k \<le> 13) \<or> (28 \<le> k \<and> k \<le> 32) \<or> k = 133 \<or> k = 160)"

definition py_strip :: "string \<Rightarrow> string" where
  "py_strip s = rev (dropWhile is_space (rev (dropWhile is_space s)))"

section \<open>Formatting and parsing dates and times\<close>

text \<open>\<^verbatim>\<open>date.isoformat\<close>, \<^verbatim>\<open>time.isoformat\<close> and \<^verbatim>\<open>datetime.isoformat\<close>.\<close>

definition date_isoformat :: "date \<Rightarrow> string" where
  "date_isoformat d = zfill 4 (year d) @ ''-'' @ zfill 2 (month d) @ ''-'' @ zfill 2 (day d)"

definition time_isoformat :: "time \<Rightarrow> string" where
  "time_isoformat t =
     zfill 2 (hour t) @ '':'' @ zfill 2 (minute t) @ '':'' @ zfill 2 (second t)
       @ (if microsecond t \<noteq> 0 then ''.'' @ zfill 6 (microsecond t) else [])"

definition datetime_isoformat :: "datetime \<Rightarrow> string" where
  "datetime_isoformat dt = date_isoformat (date_part dt) @ ''T'' @ time_isoformat (time_part dt)"

text \<open>
  \<open>parse_digits k s\<close> reads exactly \<open>k\<close> digits from the front of \<open>s\<close> and returns
  their value with the rest of the string.
\<close>

definition parse_digits :: "nat \<Rightarrow> string \<Rightarrow> (nat \<times> string) option" where
  "parse_digits k s =
     (if k \<le> length s \<and> list_all is_digit (take k s)
      then Some (digits_val (take k s), drop k s) else None)"

text \<open>
  \<^verbatim>\<open>datetime.strptime(s, '%H:%M:%S').time()\<close>; \<open>None\<close> stands for the ValueError.
  The format compiles to the regular expression
  \<^verbatim>\<open>(2[0-3]|[0-1]\d|\d):([0-5]\d|\d):(6[0-1]|[0-5]\d|\d)\<close>, the whole string must be
  consumed, and seconds 60 and 61 match but are refused by the datetime constructor.
  \<open>strptime_field\<close> reads an hour or minute field of one or two digits with its colon.
\<close>

definition strptime_field :: "nat \<Rightarrow> string \<Rightarrow> (nat \<times> string) option" where
  "strptime_field maxv s =
     (case s of
        a # b # c # rest \<Rightarrow>
          if is_digit a \<and> is_digit b \<and> c = CHR '':'' \<and> digits_val [a, b] \<le> maxv
            then Some (digits_val [a, b], rest)
          else if is_digit a \<and> b = CHR '':'' then Some (digit_val a, c # rest)
          else None
      | [a, b] \<Rightarrow> if is_digit a \<and> b = CHR '':'' then Some (digit_val a, []) else None
      | _ \<Rightarrow> None)"

definition strptime_HMS :: "string \<Rightarrow> time option" where
  "strptime_HMS s =
     (case strptime_field 23 s of
        None \<Rightarrow> None
      | Some (h, s1) \<Rightarrow>
          (case strptime_field 59 s1 of
             None \<Rightarrow> None
           | Some (m, s2) \<Rightarrow>
               (case s2 of
                  [a] \<Rightarrow>
                    if is_digit a
                    then Some \<lparr>hour = h, minute = m, second = digit_val a, microsecond = 0\<rparr>
                    else None
                | [a, b] \<Rightarrow>
                    if is_digit a \<and> is_digit b \<and> digits_val [a, b] \<le> 59
                    then Some \<lparr>hour = h, minute = m, second = digits_val [a, b], microsecond = 0\<rparr>
                    else None
                | _ \<Rightarrow> None)))"

text \<open>
  \<^verbatim>\<open>datetime.fromisoformat\<close>, for the grammar its documentation gives for Python 3.7
  to 3.10: \<^verbatim>\<open>YYYY-MM-DD[*HH[:MM[:SS[.fff[fff]]]][+HH:MM[:SS[.ffffff]]]]\<close>, where
  \<^verbatim>\<open>*\<close> is any single character. A UTC offset is parsed and checked (it must be
  shorter than 24 hours) but does not enter the result, because the program keeps only
  \<^verbatim>\<open>.date()\<close> or \<^verbatim>\<open>.time()\<close> of the value. Later Python versions accept further
  ISO 8601 forms, all of which start with a date.
\<close>

definition parse_isoformat_date :: "string \<Rightarrow> (date \<times> string) option" where
  "parse_isoformat_date s =
     (case parse_digits 4 s of
        None \<Rightarrow> None
      | Some (y, s1) \<Rightarrow>
          (if s1 = [] \<or> hd s1 \<noteq> CHR ''-'' then None
           else (case parse_digits 2 (tl s1) of
                   None \<Rightarrow> None
                 | Some (m, s2) \<Rightarrow>
                     (if s2 = [] \<or> hd s2 \<noteq> CHR ''-'' then None
                      else (case parse_digits 2 (tl s2) of
                              None \<Rightarrow> None
                            | Some (d, s3) \<Rightarrow>
                                Some (\<lparr>year = y, month = m, day = d\<rparr>, s3))))))"

text \<open>The fraction of a second: exactly three or exactly six digits.\<close>

definition parse_fraction :: "string \<Rightarrow> nat option" where
  "parse_fraction f =
     (if (length f = 3 \<or> length f = 6) \<and> list_all is_digit f
      then Some (if length f = 3 then digits_val f * 1000 else digits_val f)
      else None)"

definition parse_hh_mm_ss_ff :: "string \<Rightarrow> time option" where
  "parse_hh_mm_ss_ff s =
     (case parse_digits 2 s of
        None \<Rightarrow> None
      | Some (h, s1) \<Rightarrow>
          (if s1 = [] then Some \<lparr>hour = h, minute = 0, second = 0, microsecond = 0\<rparr>
           else if hd s1 \<noteq> CHR '':'' then None
           else (case parse_digits 2 (tl s1) of
                   None \<Rightarrow> None
                 | Some (m, s2) \<Rightarrow>
                     (if s2 = []
                      then Some \<lparr>hour = h, minute = m, second = 0, microsecond = 0\<rparr>
                      else if hd s2 \<noteq> CHR '':'' then None
                      else (case parse_digits 2 (tl s2) of
                              None \<Rightarrow> None
                            | Some (sec, s3) \<Rightarrow>
                                (if s3 = []
                                 then Some \<lparr>hour = h, minute = m, second = sec, microsecond = 0\<rparr>
                                 else if hd s3 \<noteq> CHR ''.'' then None
                                 else (case parse_fraction (tl s3) of
                                         None \<Rightarrow> None
                                       | Some us \<Rightarrow>
                                           Some \<lparr>hour = h, minute = m, second = sec,
                                                 microsecond = us\<rparr>)))))))"

definition is_sign :: "char \<Rightarrow> bool" where
  "is_sign c = (c = CHR ''+'' \<or> c = CHR ''-'')"

definition parse_isoformat_time :: "string \<Rightarrow> time option" where
  "parse_isoformat_time s =
     (let timestr = takeWhile (\<lambda>c. \<not> is_sign c) s;
          tzpart = dropWhile (\<lambda>c. \<not> is_sign c) s
      in (case parse_hh_mm_ss_ff timestr of
            None \<Rightarrow> None
          | Some t \<Rightarrow>
              (if tzpart = [] then Some t
               else (case parse_hh_mm_ss_ff (tl tzpart) of
                       None \<Rightarrow> None
                     | Some off \<Rightarrow>
                         (if hour off * 3600 + minute off * 60 + second off < 86400
                          then Some t else None)))))"

definition datetime_fromisoformat :: "string \<Rightarrow> py_error + datetime" where
  "datetime_fromisoformat s =
     (case parse_isoformat_date s of
        None \<Rightarrow> Inl ValueError
      | Some (d, rest) \<Rightarrow>
          (case (if rest = []
                 then Some \<lparr>hour = 0, minute = 0, second = 0, microsecond = 0\<rparr>
                 else parse_isoformat_time (tl rest)) of
             None \<Rightarrow> Inl ValueError
           | Some t \<Rightarrow>
               if valid_date d \<and> valid_time t then Inr (combine d t) else Inl ValueError))"

section \<open>Persisted records\<close>

text \<open>
  One object of the JSON document, with the value types of the persisted layout.
  \<open>None\<close> in an entry means that \<^verbatim>\<open>data.get(key)\<close> is \<^verbatim>\<open>None\<close>: the key is absent, or
  (for \<^verbatim>\<open>deadline\<close> and \<^verbatim>\<open>deadline_time\<close>, which \<^verbatim>\<open>to_dict\<close> writes as \<^verbatim>\<open>null\<close>) its
  value is \<^verbatim>\<open>null\<close>.
\<close>

record task_dict =
  title_entry :: "string option"
  description_entry :: "string option"
  priority_entry :: "string option"
  deadline_entry :: "string option"
  deadline_time_entry :: "string option"
  notify_enabled_entry :: "bool option"
  notify_before_minutes_entry :: "int option"
  completed_entry :: "bool option"
  created_at_entry :: "string option"
  notified_entry :: "bool option"

definition to_dict :: "task \<Rightarrow> task_dict" where
  "to_dict t =
     \<lparr>title_entry = Some (title t),
      description_entry = Some (description t),
      priority_entry = Some (priority t),
      deadline_entry = (case deadline t of Some d \<Rightarrow> Some (date_isoformat d) | None \<Rightarrow> None),
      deadline_time_entry =
        (case deadline_time t of Some tm \<Rightarrow> Some (time_isoformat tm) | None \<Rightarrow> None),
      notify_enabled_entry = Some (notify_enabled t),
      notify_before_minutes_entry = Some (notify_before_minutes t),
      completed_entry = Some (completed t),
      created_at_entry = Some (created_at t),
      notified_entry = Some (notified t)\<rparr>"

text \<open>\<^verbatim>\<open>data.get(key, default)\<close>.\<close>

definition get_or :: "'a option \<Rightarrow> 'a \<Rightarrow> 'a" where
  "get_or entry dflt = (case entry of Some v \<Rightarrow> v | None \<Rightarrow> dflt)"

text \<open>
  The two-step parse of \<^verbatim>\<open>deadline_time\<close> in \<^verbatim>\<open>Task.from_dict\<close>: an empty or missing
  string gives \<^verbatim>\<open>None\<close>, then \<^verbatim>\<open>strptime\<close>, then \<^verbatim>\<open>fromisoformat\<close>, each ValueError
  caught.
\<close>

definition parse_deadline_time :: "string option \<Rightarrow> time option" where
  "parse_deadline_time entry =
     (case entry of
        None \<Rightarrow> None
      | Some deadline_time_str \<Rightarrow>
          (if deadline_time_str = [] then None
           else (case strptime_HMS deadline_time_str of
                   Some tm \<Rightarrow> Some tm
                 | None \<Rightarrow>
                     (case datetime_fromisoformat deadline_time_str of
                        Inr dt \<Rightarrow> Some (time_part dt)
                      | Inl e \<Rightarrow> None))))"

text \<open>
  \<^verbatim>\<open>Task.from_dict\<close>. The only exception that escapes is the ValueError of
  \<^verbatim>\<open>datetime.fromisoformat(data['deadline'])\<close>. \<open>now\<close> is the clock reading used for the
  default of \<^verbatim>\<open>created_at\<close>.
\<close>

definition parse_deadline :: "string option \<Rightarrow> py_error + date option" where
  "parse_deadline entry =
     (case entry of
        None \<Rightarrow> Inr None
      | Some s \<Rightarrow>
          (if s = [] then Inr None
           else (case datetime_fromisoformat s of
                   Inl e \<Rightarrow> Inl e
                 | Inr dt \<Rightarrow> Inr (Some (date_part dt)))))"

definition from_dict :: "datetime \<Rightarrow> task_dict \<Rightarrow> py_error + task" where
  "from_dict now data =
     (case parse_deadline (deadline_entry data) of
        Inl e \<Rightarrow> Inl e
      | Inr dl \<Rightarrow>
          Inr \<lparr>title = get_or (title_entry data) [],
               description = get_or (description_entry data) [],
               priority = get_or (priority_entry data) ''Medium'',
               deadline = dl,
               deadline_time = parse_deadline_time (deadline_time_entry data),
               notify_enabled = get_or (notify_enabled_entry data) False,
               notify_before_minutes = get_or (notify_before_minutes_entry data) 30,
               completed = get_or (completed_entry data) False,
               created_at = get_or (created_at_entry data) (datetime_isoformat now),
               notified = get_or (notified_entry data) False\<rparr>)"

section \<open>The task form\<close>

text \<open>
  The widgets of \<^verbatim>\<open>TaskDialog\<close> as \<^verbatim>\<open>get_task_data\<close> reads them: the texts of the two
  line edits and of the two combo boxes, the date and time of the two editors, and the
  state of the checkbox.
\<close>

record task_dialog =
  title_edit :: string
  description_edit :: string
  priority_combo :: string
  deadline_edit :: date
  deadline_time_edit :: time
  notify_checkbox :: bool
  notify_before_spinbox :: string

text \<open>The dictionary \<^verbatim>\<open>get_task_data\<close> returns.\<close>

record task_data =
  data_title :: string
  data_description :: string
  data_priority :: string
  data_deadline :: date
  data_deadline_time :: time
  data_notify_enabled :: bool
  data_notify_before_minutes :: int

definition timing_map :: "(string \<times> int) list" where
  "timing_map =
     [(''5 minutes'', 5), (''15 minutes'', 15), (''30 minutes'', 30),
      (''1 hour'', 60), (''2 hours'', 120), (''4 hours'', 240),
      (''1 day'', 1440), (''2 days'', 2880), (''1 week'', 10080)]"

text \<open>
  \<^verbatim>\<open>TaskDialog.get_task_data\<close>; \<open>None\<close> is the \<^verbatim>\<open>return None\<close> after a warning box
  (empty title, or a deadline that is not after \<open>now\<close>).
\<close>

definition get_task_data :: "datetime \<Rightarrow> task_dialog \<Rightarrow> task_data option" where
  "get_task_data now dlg =
     (let title' = py_strip (title_edit dlg);
          description' = py_strip (description_edit dlg);
          notify_before_minutes' =
            (case map_of timing_map (notify_before_spinbox dlg) of Some m \<Rightarrow> m | None \<Rightarrow> 30)
      in if title' = [] then None
         else if dt_le (combine (deadline_edit dlg) (deadline_time_edit dlg)) now then None
         else Some \<lparr>data_title = title',
                    data_description = description',
                    data_priority = priority_combo dlg,
                    data_deadline = deadline_edit dlg,
                    data_deadline_time = deadline_time_edit dlg,
                    data_notify_enabled = notify_checkbox dlg,
                    data_notify_before_minutes = notify_before_minutes'\<rparr>)"

text \<open>\<^verbatim>\<open>Task(**task_data)\<close>, constructed when the clock reads \<open>now\<close>.\<close>

definition Task_init :: "datetime \<Rightarrow> task_data \<Rightarrow> task" where
  "Task_init now d =
     \<lparr>title = data_title d,
      description = data_description d,
      priority = data_priority d,
      deadline = Some (data_deadline d),
      deadline_time = Some (data_deadline_time d),
      notify_enabled = data_notify_enabled d,
      notify_before_minutes = data_notify_before_minutes d,
      completed = False,
      created_at = datetime_isoformat now,
      notified = False\<rparr>"

section \<open>The application\<close>

text \<open>
  The backing file holds either a JSON array of task objects or something
  \<^verbatim>\<open>json.load\<close> and \<^verbatim>\<open>from_dict\<close> cannot read as one (\<open>Broken\<close>): foreign content, or
  the proper prefix of a document that an interrupted write leaves behind (a proper
  prefix of a JSON array lacks its closing bracket). \<open>None\<close> as the file means that it
  does not exist.

  What the user is shown is a list of events, oldest first: reminder boxes (title,
  deadline datetime, priority) and the error boxes of save and load.

  How a write ends is the environment's choice: \<^verbatim>\<open>open(file, 'w')\<close> can fail, which
  leaves the file alone; once it has succeeded the file is truncated, and
  \<^verbatim>\<open>json.dump\<close> either completes or fails on the way.
\<close>

datatype file_content = Document "task_dict list" | Broken

datatype event = Reminder string datetime string | SaveError | LoadError

datatype write_outcome = Written | OpenFailed | WriteFailed

record todo_app =
  tasks :: "task list"
  data_file :: "file_content option"
  messages :: "event list"
  overdue_count :: nat

text \<open>\<^verbatim>\<open>TodoApp.save_tasks\<close>: every exception ends in the error box.\<close>

definition save_tasks :: "write_outcome \<Rightarrow> todo_app \<Rightarrow> todo_app" where
  "save_tasks io s =
     (case io of
        Written \<Rightarrow> s\<lparr>data_file := Some (Document (map to_dict (tasks s)))\<rparr>
      | OpenFailed \<Rightarrow> s\<lparr>messages := messages s @ [SaveError]\<rparr>
      | WriteFailed \<Rightarrow> s\<lparr>data_file := Some Broken, messages := messages s @ [SaveError]\<rparr>)"

text \<open>
  The list comprehension of \<^verbatim>\<open>load_tasks\<close>: the records in order, stopping at the first
  exception. \<open>clk i\<close> is the clock reading while record \<open>i\<close> is converted.
\<close>

fun from_dicts :: "(nat \<Rightarrow> datetime) \<Rightarrow> nat \<Rightarrow> task_dict list \<Rightarrow> py_error + task list" where
  "from_dicts clk i [] = Inr []"
| "from_dicts clk i (d # ds) =
     (case from_dict (clk i) d of
        Inl e \<Rightarrow> Inl e
      | Inr t \<Rightarrow>
          (case from_dicts clk (Suc i) ds of
             Inl e \<Rightarrow> Inl e
           | Inr ts \<Rightarrow> Inr (t # ts)))"

definition load_tasks :: "(nat \<Rightarrow> datetime) \<Rightarrow> todo_app \<Rightarrow> todo_app" where
  "load_tasks clk s =
     (case data_file s of
        None \<Rightarrow> s
      | Some Broken \<Rightarrow> s\<lparr>tasks := [], messages := messages s @ [LoadError]\<rparr>
      | Some (Document ds) \<Rightarrow>
          (case from_dicts clk 0 ds of
             Inl e \<Rightarrow> s\<lparr>tasks := [], messages := messages s @ [LoadError]\<rparr>
           | Inr ts \<Rightarrow> s\<lparr>tasks := ts\<rparr>))"

text \<open>\<^verbatim>\<open>TodoApp.__init__\<close>: an empty list, then \<^verbatim>\<open>load_tasks\<close>.\<close>

definition TodoApp_init :: "(nat \<Rightarrow> datetime) \<Rightarrow> file_content option \<Rightarrow> todo_app" where
  "TodoApp_init clk file =
     load_tasks clk \<lparr>tasks = [], data_file = file, messages = [], overdue_count = 0\<rparr>"

subsection \<open>The filtered, sorted view\<close>

text \<open>
  \<^verbatim>\<open>TodoApp.update_task_list\<close> up to the point where the items are drawn: the loop that
  filters and the sort. \<open>clk i\<close> is the clock reading in \<^verbatim>\<open>is_overdue\<close> for the task at
  position \<open>i\<close>. Python's sort is stable, as \<open>sort_key\<close> is.
\<close>

fun filter_tasks :: "(nat \<Rightarrow> datetime) \<Rightarrow> string \<Rightarrow> nat \<Rightarrow> task list \<Rightarrow> task list" where
  "filter_tasks clk filter_text i [] = []"
| "filter_tasks clk filter_text i (t # ts) =
     (if filter_text = ''All'' then [t]
      else if filter_text = ''High Priority'' \<and> priority t = ''High'' then [t]
      else if filter_text = ''Medium Priority'' \<and> priority t = ''Medium'' then [t]
      else if filter_text = ''Low Priority'' \<and> priority t = ''Low'' then [t]
      else if filter_text = ''Overdue'' \<and> is_overdue (clk i) t then [t]
      else if filter_text = ''Completed'' \<and> completed t then [t]
      else [])
     @ filter_tasks clk filter_text (Suc i) ts"

definition priority_order :: "(string \<times> int) list" where
  "priority_order = [(''High'', 3), (''Medium'', 2), (''Low'', 1)]"

definition priority_weight :: "task \<Rightarrow> int" where
  "priority_weight t = (case map_of priority_order (priority t) of Some w \<Rightarrow> w | None \<Rightarrow> 2)"

definition task_sort_key ::
  "task \<Rightarrow> int \<times> (nat \<times> nat \<times> nat \<times> nat \<times> nat \<times> nat \<times> nat) \<times> string" where
  "task_sort_key t =
     (- priority_weight t,
      dt_fields (case get_deadline_datetime t of Some dl \<Rightarrow> dl | None \<Rightarrow> datetime_max),
      py_lower (title t))"

definition update_task_list :: "(nat \<Rightarrow> datetime) \<Rightarrow> string \<Rightarrow> task list \<Rightarrow> task list" where
  "update_task_list clk filter_text ts = sort_key task_sort_key (filter_tasks clk filter_text 0 ts)"

subsection \<open>The operations on the list\<close>

text \<open>
  The selected item of the list widget is the position of its task in \<^verbatim>\<open>self.tasks\<close>;
  \<open>None\<close> is no selection. Every item shown belongs to a task of the list, so a
  position beyond the list does not occur and is treated as no selection. In
  \<open>add_task\<close>, \<open>now\<close> is the clock reading of the form's check and \<open>created\<close> the one
  of the constructor.
\<close>

definition add_task ::
  "bool \<Rightarrow> task_dialog \<Rightarrow> datetime \<Rightarrow> datetime \<Rightarrow> write_outcome \<Rightarrow> todo_app \<Rightarrow> todo_app" where
  "add_task accepted dlg now created io s =
     (if \<not> accepted then s
      else case get_task_data now dlg of
             None \<Rightarrow> s
           | Some d \<Rightarrow> save_tasks io (s\<lparr>tasks := tasks s @ [Task_init created d]\<rparr>))"

definition edit_fields :: "task_data \<Rightarrow> task \<Rightarrow> task" where
  "edit_fields d t =
     t\<lparr>title := data_title d,
       description := data_description d,
       priority := data_priority d,
       deadline := Some (data_deadline d),
       deadline_time := Some (data_deadline_time d),
       notify_enabled := data_notify_enabled d,
       notify_before_minutes := data_notify_before_minutes d\<rparr>"

definition edit_task ::
  "nat option \<Rightarrow> bool \<Rightarrow> task_dialog \<Rightarrow> datetime \<Rightarrow> write_outcome \<Rightarrow> todo_app \<Rightarrow> todo_app" where
  "edit_task current_item accepted dlg now io s =
     (case current_item of
        None \<Rightarrow> s
      | Some i \<Rightarrow>
          (if i < length (tasks s) \<and> accepted
           then (case get_task_data now dlg of
                   None \<Rightarrow> s
                 | Some d \<Rightarrow>
                     save_tasks io (s\<lparr>tasks := (tasks s)[i := edit_fields d (tasks s ! i)]\<rparr>))
           else s))"

definition delete_task :: "nat option \<Rightarrow> bool \<Rightarrow> write_outcome \<Rightarrow> todo_app \<Rightarrow> todo_app" where
  "delete_task current_item confirmed io s =
     (case current_item of
        None \<Rightarrow> s
      | Some i \<Rightarrow>
          (if i < length (tasks s) \<and> confirmed
           then save_tasks io (s\<lparr>tasks := take i (tasks s) @ drop (Suc i) (tasks s)\<rparr>)
           else s))"

definition toggle_task_completion :: "nat option \<Rightarrow> write_outcome \<Rightarrow> todo_app \<Rightarrow> todo_app" where
  "toggle_task_completion current_item io s =
     (case current_item of
        None \<Rightarrow> s
      | Some i \<Rightarrow>
          (if i < length (tasks s)
           then save_tasks io
                  (s\<lparr>tasks := (tasks s)[i := (tasks s ! i)\<lparr>completed := \<not> completed (tasks s ! i)\<rparr>]\<rparr>)
           else s))"

subsection \<open>The reminder sweep\<close>

text \<open>
  \<^verbatim>\<open>TodoApp.show_notification\<close> for the task at position \<open>i\<close>: a reminder box when the
  task has a deadline datetime.
\<close>

definition show_notification :: "nat \<Rightarrow> todo_app \<Rightarrow> todo_app" where
  "show_notification i s =
     (let t = tasks s ! i
      in case get_deadline_datetime t of
           None \<Rightarrow> s
         | Some deadline_dt \<Rightarrow>
             s\<lparr>messages := messages s @ [Reminder (title t) deadline_dt (priority t)]\<rparr>)"

definition set_notified :: "nat \<Rightarrow> todo_app \<Rightarrow> todo_app" where
  "set_notified i s = s\<lparr>tasks := (tasks s)[i := (tasks s ! i)\<lparr>notified := True\<rparr>]\<rparr>"

text \<open>
  The second loop of \<^verbatim>\<open>check_overdue_and_notifications\<close>, from position \<open>i\<close> with \<open>k\<close>
  tasks left. \<open>clk i\<close> is the clock reading in \<^verbatim>\<open>should_notify\<close> for the task at
  position \<open>i\<close>, \<open>io i\<close> the outcome of the save after its reminder. An exception of
  \<^verbatim>\<open>should_notify\<close> leaves the loop and the method; it is returned with the state
  reached.
\<close>

fun notify_loop ::
  "(nat \<Rightarrow> datetime) \<Rightarrow> (nat \<Rightarrow> write_outcome) \<Rightarrow> nat \<Rightarrow> nat \<Rightarrow> todo_app
     \<Rightarrow> todo_app \<times> py_error option" where
  "notify_loop clk io 0 i s = (s, None)"
| "notify_loop clk io (Suc k) i s =
     (case should_notify (clk i) (tasks s ! i) of
        Inl e \<Rightarrow> (s, Some e)
      | Inr b \<Rightarrow>
          (if b
           then notify_loop clk io k (Suc i)
                  (save_tasks (io i) (set_notified i (show_notification i s)))
           else notify_loop clk io k (Suc i) s))"

text \<open>
  \<^verbatim>\<open>TodoApp.check_overdue_and_notifications\<close>. \<open>clk_overdue i\<close> is the clock reading in
  \<^verbatim>\<open>is_overdue\<close> for the task at position \<open>i\<close> while the overdue tasks are counted.
\<close>

definition count_overdue :: "(nat \<Rightarrow> datetime) \<Rightarrow> task list \<Rightarrow> nat" where
  "count_overdue clk_overdue ts =
     length (filter (\<lambda>i. is_overdue (clk_overdue i) (ts ! i)) [0..<length ts])"

definition check_overdue_and_notifications ::
  "(nat \<Rightarrow> datetime) \<Rightarrow> (nat \<Rightarrow> datetime) \<Rightarrow> (nat \<Rightarrow> write_outcome) \<Rightarrow> todo_app
     \<Rightarrow> todo_app \<times> py_error option" where
  "check_overdue_and_notifications clk_overdue clk io s =
     notify_loop clk io (length (tasks s)) 0
       (s\<lparr>overdue_count := count_overdue clk_overdue (tasks s)\<rparr>)"

subsection \<open>Sequences of operations\<close>

text \<open>
  The operations that keep every task at its position, each with what the environment
  contributes to it (clock readings, the form as submitted, the outcome of the write).
\<close>

datatype action =
    Sweep "nat \<Rightarrow> datetime" "nat \<Rightarrow> datetime" "nat \<Rightarrow> write_outcome"
  | Toggle "nat option" write_outcome
  | Edit "nat option" bool task_dialog datetime write_outcome

fun step :: "action \<Rightarrow> todo_app \<Rightarrow> todo_app" where
  "step (Sweep clk_overdue clk io) s = fst (check_overdue_and_notifications clk_overdue clk io s)"
| "step (Toggle current_item io) s = toggle_task_completion current_item io s"
| "step (Edit current_item accepted dlg now io) s = edit_task current_item accepted dlg now io s"

fun run :: "action list \<Rightarrow> todo_app \<Rightarrow> todo_app" where
  "run [] s = s"
| "run (a # as) s = run as (step a s)"

text \<open>The constraints of the data model on a stored task.\<close>

definition allowed_minutes :: "int list" where
  "allowed_minutes = [5, 15, 30, 60, 120, 240, 1440, 2880, 10080]"

definition task_ok :: "task \<Rightarrow> bool" where
  "task_ok t = (title t \<noteq> [] \<and> notify_before_minutes t \<in> set allowed_minutes)"

text \<open>
  The words of the specification for the sweep. The sweep reaches position \<open>j\<close> when no
  earlier \<^verbatim>\<open>should_notify\<close> raised; a task fires when the sweep reaches it and its
  \<^verbatim>\<open>should_notify\<close> returns true. Its signal carries title, deadline datetime and
  priority.
\<close>

definition fires :: "(nat \<Rightarrow> datetime) \<Rightarrow> task list \<Rightarrow> nat \<Rightarrow> bool" where
  "fires clk ts j =
     (should_notify (clk j) (ts ! j) = Inr True
      \<and> list_all (\<lambda>m. \<not> isl (should_notify (clk m) (ts ! m))) [0..<j])"

definition signal_of :: "task \<Rightarrow> event list" where
  "signal_of t =
     (case get_deadline_datetime t of
        Some deadline_dt \<Rightarrow> [Reminder (title t) deadline_dt (priority t)]
      | None \<Rightarrow> [])"

fun is_reminder :: "event \<Rightarrow> bool" where
  "is_reminder (Reminder ttl dl prio) = True"
| "is_reminder SaveError = False"
| "is_reminder LoadError = False"

text \<open>The same for a sweep that starts at position \<open>i\<close>.\<close>

definition fires_from :: "nat \<Rightarrow> (nat \<Rightarrow> datetime) \<Rightarrow> task list \<Rightarrow> nat \<Rightarrow> bool" where
  "fires_from i clk ts j =
     (i \<le> j \<and> should_notify (clk j) (ts ! j) = Inr True
      \<and> list_all (\<lambda>m. \<not> isl (should_notify (clk m) (ts ! m))) [i..<j])"

text \<open>
  The words of the specification for the view: the six filter kinds with the texts of the
  combo box, the predicate of each kind, the priority weights (High 3, Medium 2, Low 1,
  anything else 2), the rank of the deadline (the fields of the deadline datetime, or
  those of 9999-12-31 23:59:59.999999 for a task without one), and the order of two
  tasks in the view.
\<close>

datatype filter_kind = All | HighPriority | MediumPriority | LowPriority | Overdue | Completed

fun filter_name :: "filter_kind \<Rightarrow> string" where
  "filter_name All = ''All''"
| "filter_name HighPriority = ''High Priority''"
| "filter_name MediumPriority = ''Medium Priority''"
| "filter_name LowPriority = ''Low Priority''"
| "filter_name Overdue = ''Overdue''"
| "filter_name Completed = ''Completed''"

fun matches :: "filter_kind \<Rightarrow> datetime \<Rightarrow> task \<Rightarrow> bool" where
  "matches All now t = True"
| "matches HighPriority now t = (priority t = ''High'')"
| "matches MediumPriority now t = (priority t = ''Medium'')"
| "matches LowPriority now t = (priority t = ''Low'')"
| "matches Overdue now t = is_overdue now t"
| "matches Completed now t = completed t"

definition weight :: "task \<Rightarrow> int" where
  "weight t = (if priority t = ''High'' then 3 else if priority t = ''Low'' then 1 else 2)"

definition deadline_rank :: "task \<Rightarrow> nat \<times> nat \<times> nat \<times> nat \<times> nat \<times> nat \<times> nat" where
  "deadline_rank t =
     (case get_deadline_datetime t of
        Some dl \<Rightarrow> dt_fields dl
      | None \<Rightarrow> (9999, 12, 31, 23, 59, 59, 999999))"

definition shown_before :: "task \<Rightarrow> task \<Rightarrow> bool" where
  "shown_before a b =
     (weight a > weight b
      \<or> (weight a = weight b
          \<and> (deadline_rank a < deadline_rank b
              \<or> (deadline_rank a = deadline_rank b \<and> py_lower (title a) \<le> py_lower (title b)))))"

text \<open>
  The tasks for which writing and reading back is the identity: the date, when set, is a
  valid date, and the time, when set, is a valid time of whole seconds.
\<close>

definition whole_second_task :: "task \<Rightarrow> bool" where
  "whole_second_task t =
     ((case deadline t of Some d \<Rightarrow> valid_date d | None \<Rightarrow> True)
      \<and> (case deadline_time t of
            Some tm \<Rightarrow> valid_time tm \<and> microsecond tm = 0
          | None \<Rightarrow> True))"

section \<open>Sample values\<close>

text \<open>Concrete tasks and states on which the theorems below are instantiated.\<close>

definition sample_task :: task where
  "sample_task =
     \<lparr>title = ''Report'', description = ''quarterly'', priority = ''High'',
      deadline = Some \<lparr>year = 2030, month = 5, day = 17\<rparr>,
      deadline_time = Some \<lparr>hour = 8, minute = 30, second = 0, microsecond = 0\<rparr>,
      notify_enabled = True, notify_before_minutes = 30, completed = False,
      created_at = ''2030-05-01T09:00:00'', notified = False\<rparr>"

definition sample_app :: todo_app where
  "sample_app =
     \<lparr>tasks = [sample_task, sample_task\<lparr>title := ''Groceries'', priority := ''Low''\<rparr>],
      data_file = None, messages = [], overdue_count = 0\<rparr>"

definition sample_now :: datetime where
  "sample_now =
     \<lparr>date_part = \<lparr>year = 2030, month = 5, day = 17\<rparr>,
      time_part = \<lparr>hour = 8, minute = 0, second = 0, microsecond = 0\<rparr>\<rparr>"

definition sample_dialog :: task_dialog where
  "sample_dialog =
     \<lparr>title_edit = ''  Report v2 '', description_edit = '''', priority_combo = ''Medium'',
      deadline_edit = \<lparr>year = 2030, month = 6, day = 1\<rparr>,
      deadline_time_edit = \<lparr>hour = 9, minute = 0, second = 0, microsecond = 0\<rparr>,
      notify_checkbox = True, notify_before_spinbox = ''1 hour''\<rparr>"

definition latched_app :: todo_app where
  "latched_app = sample_app\<lparr>tasks := [sample_task\<lparr>notified := True\<rparr>]\<rparr>"

text \<open>A record of a file that no form would have produced.\<close>

definition unchecked_record :: task_dict where
  "unchecked_record =
     \<lparr>title_entry = Some [], description_entry = Some ''no title'',
      priority_entry = Some ''High'', deadline_entry = None, deadline_time_entry = None,
      notify_enabled_entry = Some True, notify_before_minutes_entry = Some 7,
      completed_entry = Some False, created_at_entry = Some ''2030-05-01T09:00:00'',
      notified_entry = Some False\<rparr>"

text \<open>The tasks of the sorting example, and a completed task whose deadline has passed.\<close>

definition task_B :: task where
  "task_B = \<lparr>title = ''B'', description = '''', priority = ''Low'', deadline = None,
     deadline_time = None, notify_enabled = False, notify_before_minutes = 30,
     completed = False, created_at = ''2023-12-01T10:00:00'', notified = False\<rparr>"

definition task_A :: task where
  "task_A = task_B\<lparr>title := ''A'', priority := ''High'',
     deadline := Some \<lparr>year = 2025, month = 1, day = 1\<rparr>\<rparr>"

definition task_C :: task where
  "task_C = task_B\<lparr>title := ''C'', priority := ''High'',
     deadline := Some \<lparr>year = 2024, month = 1, day = 1\<rparr>\<rparr>"

definition task_done :: task where
  "task_done = task_C\<lparr>title := ''D'', completed := True\<rparr>"


definition fractional_task :: task where
  "fractional_task =
     sample_task\<lparr>deadline_time :=
       Some \<lparr>hour = 14, minute = 31, second = 27, microsecond = 123000\<rparr>\<rparr>"

section \<open>Deadline, overdue and notification state\<close>

text \<open>
  Claim C1. \<^verbatim>\<open>is_overdue()\<close> returns true if and only if the task has a deadline
  datetime, is not completed, and the current time is strictly after the deadline
  datetime; a completed task is never overdue, whatever its deadline.
\<close>

theorem is_overdue_iff:
  "is_overdue now t =
     (\<exists>dl. get_deadline_datetime t = Some dl \<and> \<not> completed t \<and> dt_less dl now)
   \<and> (completed t \<longrightarrow> \<not> is_overdue now t)"
  by (auto simp: is_overdue_def split: option.split)

theorem is_overdue_iff_witness:
  "completed \<lparr>title = ''a'', description = '''', priority = ''High'',
       deadline = Some \<lparr>year = 2020, month = 1, day = 1\<rparr>, deadline_time = None,
       notify_enabled = True, notify_before_minutes = 30, completed = True,
       created_at = '''', notified = False\<rparr>
   \<and> \<not> is_overdue (combine \<lparr>year = 2024, month = 1, day = 1\<rparr> end_of_day)
      \<lparr>title = ''a'', description = '''', priority = ''High'',
       deadline = Some \<lparr>year = 2020, month = 1, day = 1\<rparr>, deadline_time = None,
       notify_enabled = True, notify_before_minutes = 30, completed = True,
       created_at = '''', notified = False\<rparr>"
  using is_overdue_iff [of "combine \<lparr>year = 2024, month = 1, day = 1\<rparr> end_of_day"
      "\<lparr>title = ''a'', description = '''', priority = ''High'',
       deadline = Some \<lparr>year = 2020, month = 1, day = 1\<rparr>, deadline_time = None,
       notify_enabled = True, notify_before_minutes = 30, completed = True,
       created_at = '''', notified = False\<rparr>"]
  by simp

text \<open>
  Claim C2. \<^verbatim>\<open>should_notify()\<close> returns true if and only if notifications are enabled,
  the task is neither completed nor already notified, it has a deadline datetime, and
  the current time is at or after the deadline datetime minus \<^verbatim>\<open>notify_before_minutes\<close>
  minutes. The difference is the datetime Python computes; where it leaves the range of
  datetimes the call raises OverflowError and so returns nothing.
\<close>

theorem should_notify_iff:
  "(should_notify now t = Inr True) =
     (notify_enabled t \<and> \<not> completed t \<and> \<not> notified t \<and>
      (\<exists>dl nt. get_deadline_datetime t = Some dl \<and>
         sub_minutes dl (notify_before_minutes t) = Inr nt \<and> dt_le nt now))"
  by (auto simp: should_notify_def split: option.splits sum.splits)

theorem should_notify_iff_witness:
  "should_notify
     \<lparr>date_part = \<lparr>year = 2030, month = 5, day = 17\<rparr>,
      time_part = \<lparr>hour = 8, minute = 0, second = 0, microsecond = 0\<rparr>\<rparr>
     \<lparr>title = ''a'', description = '''', priority = ''High'',
      deadline = Some \<lparr>year = 2030, month = 5, day = 17\<rparr>,
      deadline_time = Some \<lparr>hour = 8, minute = 30, second = 0, microsecond = 0\<rparr>,
      notify_enabled = True, notify_before_minutes = 30, completed = False,
      created_at = '''', notified = False\<rparr> = Inr True"
proof -
  have "sub_minutes
      \<lparr>date_part = \<lparr>year = 2030, month = 5, day = 17\<rparr>,
       time_part = \<lparr>hour = 8, minute = 30, second = 0, microsecond = 0\<rparr>\<rparr> 30
    = Inr \<lparr>date_part = \<lparr>year = 2030, month = 5, day = 17\<rparr>,
       time_part = \<lparr>hour = 8, minute = 0, second = 0, microsecond = 0\<rparr>\<rparr>"
    by code_simp
  then show ?thesis
    by (simp add: should_notify_iff get_deadline_datetime_def combine_def dt_le_def)
qed

text \<open>
  Where the subtraction leaves the range of datetimes: a deadline on 0001-01-01 with a
  notification one day ahead.
\<close>

lemma should_notify_overflow:
  "should_notify sample_now
     (sample_task\<lparr>deadline := Some \<lparr>year = 1, month = 1, day = 1\<rparr>,
        notify_before_minutes := 1440\<rparr>) = Inl OverflowError"
  by (simp add: should_notify_def sample_task_def get_deadline_datetime_def sub_minutes_def
      combine_def toordinal_def days_before_year_def days_before_month_def is_leap_def
      MAXORDINAL_def)

text \<open>
  Claim C5. \<^verbatim>\<open>get_deadline_datetime()\<close> combines date and time when both are set,
  combines the date with 23:59:00 when only the date is set, and returns none when no
  date is set, also when a time is set; a task without a date is neither overdue nor
  due for a notification.
\<close>

theorem get_deadline_datetime_cases:
  "(deadline t = Some d \<and> deadline_time t = Some tm \<longrightarrow>
      get_deadline_datetime t = Some \<lparr>date_part = d, time_part = tm\<rparr>)
   \<and> (deadline t = Some d \<and> deadline_time t = None \<longrightarrow>
      get_deadline_datetime t =
        Some \<lparr>date_part = d,
              time_part = \<lparr>hour = 23, minute = 59, second = 0, microsecond = 0\<rparr>\<rparr>)
   \<and> (deadline t = None \<longrightarrow>
      get_deadline_datetime t = None \<and> \<not> is_overdue now t \<and> should_notify now t = Inr False)"
  by (simp add: get_deadline_datetime_def is_overdue_def should_notify_def combine_def
      end_of_day_def)

theorem get_deadline_datetime_cases_witness:
  "get_deadline_datetime
     \<lparr>title = ''a'', description = '''', priority = ''High'',
      deadline = Some \<lparr>year = 2030, month = 5, day = 17\<rparr>,
      deadline_time = Some \<lparr>hour = 8, minute = 30, second = 0, microsecond = 0\<rparr>,
      notify_enabled = True, notify_before_minutes = 30, completed = False,
      created_at = '''', notified = False\<rparr>
     = Some \<lparr>date_part = \<lparr>year = 2030, month = 5, day = 17\<rparr>,
             time_part = \<lparr>hour = 8, minute = 30, second = 0, microsecond = 0\<rparr>\<rparr>
   \<and> get_deadline_datetime
     \<lparr>title = ''a'', description = '''', priority = ''High'',
      deadline = Some \<lparr>year = 2030, month = 5, day = 17\<rparr>, deadline_time = None,
      notify_enabled = True, notify_before_minutes = 30, completed = False,
      created_at = '''', notified = False\<rparr>
     = Some \<lparr>date_part = \<lparr>year = 2030, month = 5, day = 17\<rparr>,
             time_part = \<lparr>hour = 23, minute = 59, second = 0, microsecond = 0\<rparr>\<rparr>
   \<and> get_deadline_datetime
     \<lparr>title = ''a'', description = '''', priority = ''High'',
      deadline = None,
      deadline_time = Some \<lparr>hour = 8, minute = 30, second = 0, microsecond = 0\<rparr>,
      notify_enabled = True, notify_before_minutes = 30, completed = False,
      created_at = '''', notified = False\<rparr> = None
   \<and> \<not> is_overdue (combine \<lparr>year = 2031, month = 1, day = 1\<rparr> end_of_day)
     \<lparr>title = ''a'', description = '''', priority = ''High'',
      deadline = None,
      deadline_time = Some \<lparr>hour = 8, minute = 30, second = 0, microsecond = 0\<rparr>,
      notify_enabled = True, notify_before_minutes = 30, completed = False,
      created_at = '''', notified = False\<rparr>
   \<and> should_notify (combine \<lparr>year = 2031, month = 1, day = 1\<rparr> end_of_day)
     \<lparr>title = ''a'', description = '''', priority = ''High'',
      deadline = None,
      deadline_time = Some \<lparr>hour = 8, minute = 30, second = 0, microsecond = 0\<rparr>,
      notify_enabled = True, notify_before_minutes = 30, completed = False,
      created_at = '''', notified = False\<rparr> = Inr False"
  using
    get_deadline_datetime_cases [of
      "\<lparr>title = ''a'', description = '''', priority = ''High'',
        deadline = Some \<lparr>year = 2030, month = 5, day = 17\<rparr>,
        deadline_time = Some \<lparr>hour = 8, minute = 30, second = 0, microsecond = 0\<rparr>,
        notify_enabled = True, notify_before_minutes = 30, completed = False,
        created_at = '''', notified = False\<rparr>"
      "\<lparr>year = 2030, month = 5, day = 17\<rparr>"
      "\<lparr>hour = 8, minute = 30, second = 0, microsecond = 0\<rparr>"]
    get_deadline_datetime_cases [of
      "\<lparr>title = ''a'', description = '''', priority = ''High'',
        deadline = Some \<lparr>year = 2030, month = 5, day = 17\<rparr>, deadline_time = None,
        notify_enabled = True, notify_before_minutes = 30, completed = False,
        created_at = '''', notified = False\<rparr>"
      "\<lparr>year = 2030, month = 5, day = 17\<rparr>"]
    get_deadline_datetime_cases [of
      "\<lparr>title = ''a'', description = '''', priority = ''High'',
        deadline = None,
        deadline_time = Some \<lparr>hour = 8, minute = 30, second = 0, microsecond = 0\<rparr>,
        notify_enabled = True, notify_before_minutes = 30, completed = False,
        created_at = '''', notified = False\<rparr>" _ _
      "combine \<lparr>year = 2031, month = 1, day = 1\<rparr> end_of_day"]
  by simp

section \<open>Completion toggle and saving\<close>

text \<open>
  Claim C10. Toggling the completion of the selected task flips the \<^verbatim>\<open>completed\<close> field
  of that task and nothing else: its other nine fields and all other tasks of the list
  are unchanged. The list with the flipped task is saved before the operation ends:
  the result is \<open>save_tasks\<close> applied to it, and when the write succeeds the file holds
  the document of the new list.
\<close>

theorem toggle_task_completion_frame:
  assumes "i < length (tasks s)" and "s' = toggle_task_completion (Some i) io s"
  shows "length (tasks s') = length (tasks s)
    \<and> completed (tasks s' ! i) = (\<not> completed (tasks s ! i))
    \<and> title (tasks s' ! i) = title (tasks s ! i)
    \<and> description (tasks s' ! i) = description (tasks s ! i)
    \<and> priority (tasks s' ! i) = priority (tasks s ! i)
    \<and> deadline (tasks s' ! i) = deadline (tasks s ! i)
    \<and> deadline_time (tasks s' ! i) = deadline_time (tasks s ! i)
    \<and> notify_enabled (tasks s' ! i) = notify_enabled (tasks s ! i)
    \<and> notify_before_minutes (tasks s' ! i) = notify_before_minutes (tasks s ! i)
    \<and> created_at (tasks s' ! i) = created_at (tasks s ! i)
    \<and> notified (tasks s' ! i) = notified (tasks s ! i)
    \<and> (\<forall>j. j < length (tasks s) \<and> j \<noteq> i \<longrightarrow> tasks s' ! j = tasks s ! j)
    \<and> s' = save_tasks io
         (s\<lparr>tasks := (tasks s)[i := (tasks s ! i)\<lparr>completed := \<not> completed (tasks s ! i)\<rparr>]\<rparr>)
    \<and> (io = Written \<longrightarrow> data_file s' = Some (Document (map to_dict (tasks s'))))"
  using assms
  by (cases io) (simp_all add: toggle_task_completion_def save_tasks_def)

theorem toggle_task_completion_frame_witness:
  "completed (tasks (toggle_task_completion (Some 0) Written sample_app) ! 0)
   \<and> tasks (toggle_task_completion (Some 0) Written sample_app) ! 1 = tasks sample_app ! 1
   \<and> data_file (toggle_task_completion (Some 0) Written sample_app)
       = Some (Document (map to_dict (tasks (toggle_task_completion (Some 0) Written sample_app))))"
proof -
  have len: "0 < length (tasks sample_app)"
    by (simp add: sample_app_def)
  have len1: "1 < length (tasks sample_app)"
    by (simp add: sample_app_def)
  have c: "\<not> completed (tasks sample_app ! 0)"
    by (simp add: sample_app_def sample_task_def)
  note th = toggle_task_completion_frame [OF len refl, of Written]
  from th have a: "completed (tasks (toggle_task_completion (Some 0) Written sample_app) ! 0)"
    using c by blast
  have ne: "(1::nat) \<noteq> 0"
    by simp
  from th len1 ne
  have b: "tasks (toggle_task_completion (Some 0) Written sample_app) ! 1 = tasks sample_app ! 1"
    by blast
  from th have d: "data_file (toggle_task_completion (Some 0) Written sample_app)
       = Some (Document (map to_dict (tasks (toggle_task_completion (Some 0) Written sample_app))))"
    by blast
  from a b d show ?thesis by blast
qed

text \<open>
  Claim C8, as the code has it. \<^verbatim>\<open>save_tasks\<close> writes the document of the whole list
  over the backing file in place. A successful write leaves the complete new document
  and shows nothing. When the file cannot be opened it keeps its contents; when writing
  fails after the file was opened, and so truncated, the file is left incomplete. Both
  failures show the error box. The task list in memory is the same in every case.
\<close>

theorem save_tasks_outcomes:
  "tasks (save_tasks io s) = tasks s
   \<and> (io = Written \<longrightarrow>
        data_file (save_tasks io s) = Some (Document (map to_dict (tasks s)))
        \<and> messages (save_tasks io s) = messages s)
   \<and> (io = OpenFailed \<longrightarrow>
        data_file (save_tasks io s) = data_file s
        \<and> messages (save_tasks io s) = messages s @ [SaveError])
   \<and> (io = WriteFailed \<longrightarrow>
        data_file (save_tasks io s) = Some Broken
        \<and> messages (save_tasks io s) = messages s @ [SaveError])"
  by (cases io) (simp_all add: save_tasks_def)

theorem save_tasks_outcomes_witness:
  "data_file (save_tasks Written sample_app) = Some (Document (map to_dict (tasks sample_app)))
   \<and> messages (save_tasks Written sample_app) = []
   \<and> data_file (save_tasks OpenFailed sample_app) = None
   \<and> messages (save_tasks OpenFailed sample_app) = [SaveError]
   \<and> data_file (save_tasks WriteFailed sample_app) = Some Broken
   \<and> messages (save_tasks WriteFailed sample_app) = [SaveError]
   \<and> tasks (save_tasks WriteFailed sample_app) = tasks sample_app"
  using save_tasks_outcomes [of Written sample_app]
    save_tasks_outcomes [of OpenFailed sample_app]
    save_tasks_outcomes [of WriteFailed sample_app]
  by (simp add: sample_app_def)

text \<open>
  The claim as stated asks for an atomic overwrite: after a save attempt the file holds
  its previous contents or the complete new document. A write that fails after
  \<^verbatim>\<open>open(file, 'w')\<close> leaves neither.
\<close>

theorem save_tasks_not_atomic:
  "data_file (save_tasks WriteFailed sample_app) \<noteq> data_file sample_app
   \<and> data_file (save_tasks WriteFailed sample_app)
       \<noteq> Some (Document (map to_dict (tasks sample_app)))"
  by (simp add: save_tasks_def sample_app_def)

section \<open>The reminder sweep and the notification latch\<close>

lemma tasks_save_tasks: "tasks (save_tasks io s) = tasks s"
  by (cases io) (simp_all add: save_tasks_def)

lemma reminders_save_tasks:
  "filter is_reminder (messages (save_tasks io s)) = filter is_reminder (messages s)"
  by (cases io) (simp_all add: save_tasks_def)

lemma tasks_show_notification: "tasks (show_notification i s) = tasks s"
  by (simp add: show_notification_def Let_def split: option.split)

lemma messages_show_notification:
  "messages (show_notification i s) = messages s @ signal_of (tasks s ! i)"
  by (simp add: show_notification_def signal_of_def Let_def split: option.split)

lemma reminders_signal_of: "filter is_reminder (signal_of t) = signal_of t"
  by (simp add: signal_of_def split: option.split)

lemma tasks_fired:
  "tasks (save_tasks io (set_notified i (show_notification i s)))
     = (tasks s)[i := (tasks s ! i)\<lparr>notified := True\<rparr>]"
  by (simp add: tasks_save_tasks set_notified_def tasks_show_notification)

lemma reminders_fired:
  "filter is_reminder (messages (save_tasks io (set_notified i (show_notification i s))))
     = filter is_reminder (messages s) @ signal_of (tasks s ! i)"
  by (simp add: reminders_save_tasks set_notified_def messages_show_notification
      reminders_signal_of)

lemma fires_from_iff:
  "fires_from i clk ts j =
     (i \<le> j \<and> should_notify (clk j) (ts ! j) = Inr True
      \<and> (\<forall>m. i \<le> m \<and> m < j \<longrightarrow> \<not> isl (should_notify (clk m) (ts ! m))))"
  by (auto simp: fires_from_def list_all_iff)

lemma fires_from_0: "fires_from 0 clk ts j = fires clk ts j"
  by (simp add: fires_from_def fires_def)

lemma fires_from_self: "fires_from i clk ts i = (should_notify (clk i) (ts ! i) = Inr True)"
  by (auto simp: fires_from_iff)

lemma fires_from_before: "j < i \<Longrightarrow> \<not> fires_from i clk ts j"
  by (simp add: fires_from_iff)

lemma fires_from_Inl: "should_notify (clk i) (ts ! i) = Inl e \<Longrightarrow> \<not> fires_from i clk ts j"
  by (cases "j = i") (auto simp: fires_from_iff)

lemma fires_from_Suc:
  assumes "should_notify (clk i) (ts ! i) = Inr b" and "j \<noteq> i"
  shows "fires_from i clk ts j = fires_from (Suc i) clk ts j"
proof -
  have "(\<forall>m. i \<le> m \<and> m < j \<longrightarrow> \<not> isl (should_notify (clk m) (ts ! m)))
      = (\<forall>m. Suc i \<le> m \<and> m < j \<longrightarrow> \<not> isl (should_notify (clk m) (ts ! m)))"
    using assms(1) by (metis Suc_leD Suc_leI le_neq_implies_less sum.disc(2))
  then show ?thesis
    using assms(2) by (auto simp: fires_from_iff)
qed

lemma fires_from_update:
  assumes "j \<noteq> i"
  shows "fires_from (Suc i) clk (ts[i := x]) j = fires_from (Suc i) clk ts j"
proof -
  have "(\<forall>m. Suc i \<le> m \<and> m < j \<longrightarrow> \<not> isl (should_notify (clk m) (ts[i := x] ! m)))
      = (\<forall>m. Suc i \<le> m \<and> m < j \<longrightarrow> \<not> isl (should_notify (clk m) (ts ! m)))"
    by (metis Suc_n_not_le_n nth_list_update_neq)
  then show ?thesis
    using assms by (simp add: fires_from_iff)
qed

lemma notify_loop_tasks:
  "i + k = length (tasks s) \<Longrightarrow>
   tasks (fst (notify_loop clk io k i s))
     = map (\<lambda>j. if fires_from i clk (tasks s) j then (tasks s ! j)\<lparr>notified := True\<rparr>
                 else tasks s ! j) [0..<length (tasks s)]"
proof (induction k arbitrary: i s)
  case 0
  then show ?case
    by (auto simp: fires_from_iff intro!: nth_equalityI)
next
  case (Suc k)
  show ?case
  proof (cases "should_notify (clk i) (tasks s ! i)")
    case (Inl e)
    then show ?thesis
      by (auto simp: fires_from_Inl intro!: nth_equalityI)
  next
    case (Inr b)
    show ?thesis
    proof (cases b)
      case False
      have eq: "fires_from i clk (tasks s) j = fires_from (Suc i) clk (tasks s) j" for j
        using Inr False fires_from_Suc [of clk i "tasks s" b j]
        by (cases "j = i") (simp_all add: fires_from_self fires_from_before)
      from Suc.prems have "Suc i + k = length (tasks s)" by simp
      from Suc.IH [OF this] show ?thesis
        using Inr False by (simp add: eq)
    next
      case True
      let ?s1 = "save_tasks (io i) (set_notified i (show_notification i s))"
      let ?x = "(tasks s ! i)\<lparr>notified := True\<rparr>"
      have t1: "tasks ?s1 = (tasks s)[i := ?x]"
        by (rule tasks_fired)
      from Suc.prems have len: "Suc i + k = length (tasks ?s1)" and ii: "i < length (tasks s)"
        by (simp_all add: t1)
      have eq: "j \<noteq> i \<Longrightarrow> fires_from (Suc i) clk ((tasks s)[i := ?x]) j = fires_from i clk (tasks s) j" for j
        using Inr fires_from_update [of j i clk "tasks s" ?x]
          fires_from_Suc [of clk i "tasks s" b j] by simp
      have fi: "fires_from i clk (tasks s) i"
        using Inr True by (simp add: fires_from_self)
      have "tasks (fst (notify_loop clk io (Suc k) i s)) = tasks (fst (notify_loop clk io k (Suc i) ?s1))"
        using Inr True by simp
      also have "\<dots> = map (\<lambda>j. if fires_from (Suc i) clk (tasks ?s1) j
            then (tasks ?s1 ! j)\<lparr>notified := True\<rparr> else tasks ?s1 ! j) [0..<length (tasks ?s1)]"
        by (rule Suc.IH [OF len])
      also have "\<dots> = map (\<lambda>j. if fires_from i clk (tasks s) j then (tasks s ! j)\<lparr>notified := True\<rparr>
                 else tasks s ! j) [0..<length (tasks s)]"
        unfolding t1
      proof (rule map_cong)
        show "[0..<length ((tasks s)[i := ?x])] = [0..<length (tasks s)]"
          by simp
      next
        fix j
        assume "j \<in> set [0..<length (tasks s)]"
        then have jl: "j < length (tasks s)"
          by simp
        show "(if fires_from (Suc i) clk ((tasks s)[i := ?x]) j
            then ((tasks s)[i := ?x] ! j)\<lparr>notified := True\<rparr> else (tasks s)[i := ?x] ! j)
          = (if fires_from i clk (tasks s) j then (tasks s ! j)\<lparr>notified := True\<rparr>
                 else tasks s ! j)"
        proof (cases "j = i")
          case True
          then show ?thesis using jl fi by (simp add: fires_from_before)
        next
          case False
          then show ?thesis using eq [OF False] by simp
        qed
      qed
      finally show ?thesis .
    qed
  qed
qed

lemma notify_loop_reminders:
  "i + k = length (tasks s) \<Longrightarrow>
   filter is_reminder (messages (fst (notify_loop clk io k i s)))
     = filter is_reminder (messages s)
       @ concat (map (\<lambda>j. if fires_from i clk (tasks s) j then signal_of (tasks s ! j) else [])
           [i..<i + k])"
proof (induction k arbitrary: i s)
  case 0
  then show ?case by simp
next
  case (Suc k)
  have upt: "[i..<i + Suc k] = i # [Suc i..<Suc i + k]"
    by (simp add: upt_conv_Cons)
  show ?case
  proof (cases "should_notify (clk i) (tasks s ! i)")
    case (Inl e)
    then show ?thesis
      by (simp add: fires_from_Inl)
  next
    case (Inr b)
    show ?thesis
    proof (cases b)
      case False
      have eq: "fires_from i clk (tasks s) j = fires_from (Suc i) clk (tasks s) j" for j
        using Inr False fires_from_Suc [of clk i "tasks s" b j]
        by (cases "j = i") (simp_all add: fires_from_self fires_from_before)
      from Suc.prems have "Suc i + k = length (tasks s)" by simp
      from Suc.IH [OF this] show ?thesis
        using Inr False unfolding upt by (simp add: eq fires_from_before)
    next
      case True
      let ?s1 = "save_tasks (io i) (set_notified i (show_notification i s))"
      let ?x = "(tasks s ! i)\<lparr>notified := True\<rparr>"
      have t1: "tasks ?s1 = (tasks s)[i := ?x]"
        by (rule tasks_fired)
      from Suc.prems have len: "Suc i + k = length (tasks ?s1)"
        by (simp add: t1)
      have eq: "j \<noteq> i \<Longrightarrow> fires_from (Suc i) clk ((tasks s)[i := ?x]) j = fires_from i clk (tasks s) j" for j
        using Inr fires_from_update [of j i clk "tasks s" ?x]
          fires_from_Suc [of clk i "tasks s" b j] by simp
      have fi: "fires_from i clk (tasks s) i"
        using Inr True by (simp add: fires_from_self)
      have m: "map (\<lambda>j. if fires_from (Suc i) clk ((tasks s)[i := ?x]) j
                 then signal_of ((tasks s)[i := ?x] ! j) else []) [Suc i..<Suc i + k]
          = map (\<lambda>j. if fires_from i clk (tasks s) j then signal_of (tasks s ! j) else [])
              [Suc i..<Suc i + k]"
        by (rule map_cong) (auto simp: eq)
      have "filter is_reminder (messages (fst (notify_loop clk io (Suc k) i s)))
          = filter is_reminder (messages (fst (notify_loop clk io k (Suc i) ?s1)))"
        using Inr True by simp
      also have "\<dots> = filter is_reminder (messages ?s1)
          @ concat (map (\<lambda>j. if fires_from (Suc i) clk (tasks ?s1) j
                 then signal_of (tasks ?s1 ! j) else []) [Suc i..<Suc i + k])"
        by (rule Suc.IH [OF len])
      also have "\<dots> = filter is_reminder (messages s)
       @ concat (map (\<lambda>j. if fires_from i clk (tasks s) j then signal_of (tasks s ! j) else [])
           [i..<i + Suc k])"
        unfolding t1 m upt by (simp add: reminders_fired fi)
      finally show ?thesis .
    qed
  qed
qed

lemma should_notify_notified: "notified t \<Longrightarrow> should_notify now t = Inr False"
  by (simp add: should_notify_def)

lemma should_notify_stays:
  assumes "should_notify now t = Inr True" and "dt_le now later"
  shows "should_notify later t = Inr True"
proof -
  have "dt_le a now \<Longrightarrow> dt_le a later" for a
    using assms(2) by (auto simp: dt_le_def)
  with assms(1) show ?thesis
    by (auto simp: should_notify_def split: if_splits option.splits sum.splits)
qed

lemma should_notify_True_signal:
  "should_notify now t = Inr True \<Longrightarrow>
   \<not> notified t \<and> (\<exists>dl. get_deadline_datetime t = Some dl
      \<and> signal_of t = [Reminder (title t) dl (priority t)])"
  by (auto simp: should_notify_def signal_of_def split: if_splits option.splits)

lemma sweep_tasks:
  "tasks (fst (check_overdue_and_notifications clk_overdue clk io s))
     = map (\<lambda>j. if fires clk (tasks s) j then (tasks s ! j)\<lparr>notified := True\<rparr>
                 else tasks s ! j) [0..<length (tasks s)]"
proof -
  let ?s0 = "s\<lparr>overdue_count := count_overdue clk_overdue (tasks s)\<rparr>"
  have t0: "tasks ?s0 = tasks s"
    by simp
  have "0 + length (tasks s) = length (tasks ?s0)"
    by simp
  from notify_loop_tasks [OF this, of clk io] show ?thesis
    unfolding t0 check_overdue_and_notifications_def fires_from_0 .
qed

lemma sweep_reminders:
  "filter is_reminder (messages (fst (check_overdue_and_notifications clk_overdue clk io s)))
     = filter is_reminder (messages s)
       @ concat (map (\<lambda>j. if fires clk (tasks s) j then signal_of (tasks s ! j) else [])
           [0..<length (tasks s)])"
proof -
  let ?s0 = "s\<lparr>overdue_count := count_overdue clk_overdue (tasks s)\<rparr>"
  have t0: "tasks ?s0 = tasks s" and m0: "messages ?s0 = messages s"
    by simp_all
  have "0 + length (tasks s) = length (tasks ?s0)"
    by simp
  from notify_loop_reminders [OF this, of clk io] show ?thesis
    unfolding t0 m0 check_overdue_and_notifications_def fires_from_0 by simp
qed

lemma sweep_nth:
  "j < length (tasks s) \<Longrightarrow>
   tasks (fst (check_overdue_and_notifications clk_overdue clk io s)) ! j
     = (if fires clk (tasks s) j then (tasks s ! j)\<lparr>notified := True\<rparr> else tasks s ! j)"
  by (simp add: sweep_tasks)

lemma sweep_length:
  "length (tasks (fst (check_overdue_and_notifications clk_overdue clk io s))) = length (tasks s)"
  by (simp add: sweep_tasks)

lemma step_length: "length (tasks (step a s)) = length (tasks s)"
proof (cases a)
  case (Sweep co clk io)
  then show ?thesis by (simp add: sweep_length)
next
  case (Toggle cur io)
  then show ?thesis
    by (simp add: toggle_task_completion_def tasks_save_tasks split: option.split)
next
  case (Edit cur accepted dlg now io)
  then show ?thesis
    by (simp add: edit_task_def tasks_save_tasks split: option.split)
qed

lemma step_notified:
  assumes "i < length (tasks s)" and "notified (tasks s ! i)"
  shows "notified (tasks (step a s) ! i)"
proof (cases a)
  case (Sweep co clk io)
  then show ?thesis using assms by (simp add: sweep_nth)
next
  case (Toggle cur io)
  then show ?thesis using assms
    by (auto simp: toggle_task_completion_def tasks_save_tasks nth_list_update
        split: option.split)
next
  case (Edit cur accepted dlg now io)
  then show ?thesis using assms
    by (auto simp: edit_task_def tasks_save_tasks nth_list_update edit_fields_def
        split: option.split)
qed

lemma run_notified:
  "i < length (tasks s) \<Longrightarrow> notified (tasks s ! i) \<Longrightarrow>
   length (tasks (run acts s)) = length (tasks s) \<and> notified (tasks (run acts s) ! i)"
proof (induction acts arbitrary: s)
  case Nil
  then show ?case by simp
next
  case (Cons a acts)
  have "i < length (tasks (step a s))" and "notified (tasks (step a s) ! i)"
    using Cons.prems by (simp_all add: step_length step_notified)
  from Cons.IH [OF this] show ?case
    by (simp add: step_length)
qed

text \<open>
  Claim C6. Once \<^verbatim>\<open>notified\<close> is true for a task, no sequence of reminder sweeps,
  completion toggles and edits (an edit may change the deadline) resets it, and
  \<^verbatim>\<open>should_notify()\<close> returns false for that task from then on. A sweep sets
  \<^verbatim>\<open>notified\<close> on exactly the tasks that fire, that is, the tasks it reaches whose
  \<^verbatim>\<open>should_notify()\<close> returns true; the reminders it shows are the signals of the
  firing tasks, in list order; and for each of them the signal is shown while the flag
  is still false, then the flag is set, then the list is saved.
\<close>

theorem notified_latch:
  "(i < length (tasks s) \<and> notified (tasks s ! i) \<longrightarrow>
      length (tasks (run acts s)) = length (tasks s)
      \<and> notified (tasks (run acts s) ! i)
      \<and> should_notify now (tasks (run acts s) ! i) = Inr False)
   \<and> (j < length (tasks s) \<longrightarrow>
      notified (tasks (fst (check_overdue_and_notifications clk_overdue clk io s)) ! j)
        = (notified (tasks s ! j) \<or> fires clk (tasks s) j))
   \<and> filter is_reminder (messages (fst (check_overdue_and_notifications clk_overdue clk io s)))
        = filter is_reminder (messages s)
          @ concat (map (\<lambda>j. signal_of (tasks s ! j))
              (filter (fires clk (tasks s)) [0..<length (tasks s)]))
   \<and> (should_notify (clk j) (tasks s ! j) = Inr True \<longrightarrow>
      (\<exists>dl. get_deadline_datetime (tasks s ! j) = Some dl
         \<and> messages (show_notification j s)
             = messages s @ [Reminder (title (tasks s ! j)) dl (priority (tasks s ! j))])
      \<and> \<not> notified (tasks (show_notification j s) ! j)
      \<and> notify_loop clk io (Suc k) j s
          = notify_loop clk io k (Suc j)
              (save_tasks (io j) (set_notified j (show_notification j s))))"
proof (intro conjI impI)
  assume a: "i < length (tasks s) \<and> notified (tasks s ! i)"
  then show "length (tasks (run acts s)) = length (tasks s)"
    and n: "notified (tasks (run acts s) ! i)"
    using run_notified [of i s acts] by simp_all
  from n show "should_notify now (tasks (run acts s) ! i) = Inr False"
    by (rule should_notify_notified)
next
  assume "j < length (tasks s)"
  then show "notified (tasks (fst (check_overdue_and_notifications clk_overdue clk io s)) ! j)
        = (notified (tasks s ! j) \<or> fires clk (tasks s) j)"
    by (simp add: sweep_nth)
next
  have "concat (map (\<lambda>j. if fires clk (tasks s) j then signal_of (tasks s ! j) else []) xs)
      = concat (map (\<lambda>j. signal_of (tasks s ! j)) (filter (fires clk (tasks s)) xs))" for xs
    by (induction xs) simp_all
  then show "filter is_reminder (messages (fst (check_overdue_and_notifications clk_overdue clk io s)))
        = filter is_reminder (messages s)
          @ concat (map (\<lambda>j. signal_of (tasks s ! j))
              (filter (fires clk (tasks s)) [0..<length (tasks s)]))"
    by (simp add: sweep_reminders)
next
  assume t: "should_notify (clk j) (tasks s ! j) = Inr True"
  from should_notify_True_signal [OF t]
  show "\<exists>dl. get_deadline_datetime (tasks s ! j) = Some dl
         \<and> messages (show_notification j s)
             = messages s @ [Reminder (title (tasks s ! j)) dl (priority (tasks s ! j))]"
    by (auto simp: messages_show_notification)
  from should_notify_True_signal [OF t]
  show "\<not> notified (tasks (show_notification j s) ! j)"
    by (simp add: tasks_show_notification)
  from t show "notify_loop clk io (Suc k) j s
          = notify_loop clk io k (Suc j)
              (save_tasks (io j) (set_notified j (show_notification j s)))"
    by simp
qed

theorem notified_latch_witness:
  "notified (tasks (run [Sweep (\<lambda>i. sample_now) (\<lambda>i. sample_now) (\<lambda>i. Written),
        Toggle (Some 0) Written, Edit (Some 0) True sample_dialog sample_now Written]
        latched_app) ! 0)
   \<and> should_notify sample_now
       (tasks (run [Sweep (\<lambda>i. sample_now) (\<lambda>i. sample_now) (\<lambda>i. Written),
         Toggle (Some 0) Written, Edit (Some 0) True sample_dialog sample_now Written]
         latched_app) ! 0) = Inr False
   \<and> notified (tasks (fst (check_overdue_and_notifications
         (\<lambda>i. sample_now) (\<lambda>i. sample_now) (\<lambda>i. Written) sample_app)) ! 0)
   \<and> messages (show_notification 0 sample_app)
       = [Reminder ''Report''
            \<lparr>date_part = \<lparr>year = 2030, month = 5, day = 17\<rparr>,
             time_part = \<lparr>hour = 8, minute = 30, second = 0, microsecond = 0\<rparr>\<rparr> ''High'']"
proof -
  let ?acts = "[Sweep (\<lambda>i. sample_now) (\<lambda>i. sample_now) (\<lambda>i. Written),
        Toggle (Some 0) Written, Edit (Some 0) True sample_dialog sample_now Written]"
  have p1: "0 < length (tasks latched_app) \<and> notified (tasks latched_app ! 0)"
    by (simp add: latched_app_def)
  have s0: "tasks sample_app ! 0 = sample_task" and l0: "0 < length (tasks sample_app)"
    and m0: "messages sample_app = []"
    by (simp_all add: sample_app_def)
  have sn: "should_notify sample_now sample_task = Inr True"
    by code_simp
  have f: "fires (\<lambda>i. sample_now) (tasks sample_app) 0"
    by (simp add: fires_def s0 sn)
  have g: "get_deadline_datetime sample_task
      = Some \<lparr>date_part = \<lparr>year = 2030, month = 5, day = 17\<rparr>,
             time_part = \<lparr>hour = 8, minute = 30, second = 0, microsecond = 0\<rparr>\<rparr>"
    by (simp add: get_deadline_datetime_def sample_task_def combine_def)
  have tp: "title sample_task = ''Report''" "priority sample_task = ''High''"
    by (simp_all add: sample_task_def)
  from notified_latch [of 0 latched_app ?acts sample_now] p1
  have a: "notified (tasks (run ?acts latched_app) ! 0)"
    and b: "should_notify sample_now (tasks (run ?acts latched_app) ! 0) = Inr False"
    by blast+
  from notified_latch [of _ sample_app _ _ 0 "\<lambda>i. sample_now" "\<lambda>i. sample_now" "\<lambda>i. Written"]
    l0 f
  have c: "notified (tasks (fst (check_overdue_and_notifications
         (\<lambda>i. sample_now) (\<lambda>i. sample_now) (\<lambda>i. Written) sample_app)) ! 0)"
    by blast
  from notified_latch [of _ sample_app _ _ 0 _ "\<lambda>i. sample_now"] sn
  have "\<exists>dl. get_deadline_datetime (tasks sample_app ! 0) = Some dl
         \<and> messages (show_notification 0 sample_app)
             = messages sample_app
               @ [Reminder (title (tasks sample_app ! 0)) dl (priority (tasks sample_app ! 0))]"
    unfolding s0 by blast
  then have d: "messages (show_notification 0 sample_app)
       = [Reminder ''Report''
            \<lparr>date_part = \<lparr>year = 2030, month = 5, day = 17\<rparr>,
             time_part = \<lparr>hour = 8, minute = 30, second = 0, microsecond = 0\<rparr>\<rparr> ''High'']"
    unfolding s0 m0 g tp by simp
  from a b c d show ?thesis by blast
qed

section \<open>Constraints of the data model\<close>

lemma timing_map_allowed: "map_of timing_map x = Some m \<Longrightarrow> m \<in> set allowed_minutes"
  by (auto simp: timing_map_def allowed_minutes_def split: if_splits)

lemma get_task_data_ok:
  assumes "get_task_data now dlg = Some d"
  shows "data_title d \<noteq> [] \<and> data_notify_before_minutes d \<in> set allowed_minutes"
proof -
  have "(case map_of timing_map (notify_before_spinbox dlg) of Some m \<Rightarrow> m | None \<Rightarrow> 30)
      \<in> set allowed_minutes"
    by (auto simp: timing_map_allowed split: option.split) (simp add: allowed_minutes_def)
  with assms show ?thesis
    by (auto simp: get_task_data_def Let_def split: if_splits)
qed

lemma task_ok_Task_init: "get_task_data now dlg = Some d \<Longrightarrow> task_ok (Task_init now' d)"
  using get_task_data_ok [of now dlg d] by (simp add: task_ok_def Task_init_def)

lemma task_ok_edit_fields: "get_task_data now dlg = Some d \<Longrightarrow> task_ok (edit_fields d t)"
  using get_task_data_ok [of now dlg d] by (simp add: task_ok_def edit_fields_def)

lemma list_all_update: "list_all P xs \<Longrightarrow> P x \<Longrightarrow> list_all P (xs[i := x])"
  by (induction xs arbitrary: i) (auto split: nat.split)

lemma list_all_nth: "list_all P xs \<Longrightarrow> i < length xs \<Longrightarrow> P (xs ! i)"
  by (simp add: list_all_length)

lemma add_task_ok:
  "list_all task_ok (tasks s) \<Longrightarrow> list_all task_ok (tasks (add_task accepted dlg now created io s))"
  by (auto simp: add_task_def tasks_save_tasks task_ok_Task_init split: option.split)

lemma edit_task_ok:
  "list_all task_ok (tasks s) \<Longrightarrow>
   list_all task_ok (tasks (edit_task cur accepted dlg now io s))"
  by (auto simp: edit_task_def tasks_save_tasks task_ok_edit_fields list_all_update
      split: option.split)

lemma toggle_task_completion_ok:
  "list_all task_ok (tasks s) \<Longrightarrow> list_all task_ok (tasks (toggle_task_completion cur io s))"
proof -
  have "task_ok t \<Longrightarrow> task_ok (t\<lparr>completed := b\<rparr>)" for t b
    by (simp add: task_ok_def)
  then show "list_all task_ok (tasks s) \<Longrightarrow> ?thesis"
    by (auto simp: toggle_task_completion_def tasks_save_tasks list_all_update list_all_nth
        split: option.split)
qed

lemma delete_task_ok:
  "list_all task_ok (tasks s) \<Longrightarrow> list_all task_ok (tasks (delete_task cur confirmed io s))"
  by (auto simp: delete_task_def tasks_save_tasks list_all_iff
      dest: in_set_takeD in_set_dropD split: option.split)

lemma sweep_ok:
  assumes "list_all task_ok (tasks s)"
  shows "list_all task_ok (tasks (fst (check_overdue_and_notifications clk_overdue clk io s)))"
proof -
  have "task_ok t \<Longrightarrow> task_ok (t\<lparr>notified := True\<rparr>)" for t
    by (simp add: task_ok_def)
  with assms show ?thesis
    by (auto simp: sweep_tasks list_all_iff)
qed

text \<open>
  Claim C9, as the code has it. A submitted form yields a stripped, non-empty title and a
  \<^verbatim>\<open>notify_before_minutes\<close> from the allowed set, so a task created or edited through
  the form satisfies both constraints; adding, editing, toggling, deleting and the
  reminder sweep keep a list whose tasks all satisfy them in that state.
\<close>

theorem form_tasks_ok:
  "(get_task_data now dlg = Some d \<longrightarrow>
      data_title d \<noteq> [] \<and> data_notify_before_minutes d \<in> set allowed_minutes
      \<and> task_ok (Task_init created d) \<and> task_ok (edit_fields d t))
   \<and> (list_all task_ok (tasks s) \<longrightarrow>
      list_all task_ok (tasks (add_task accepted dlg now created io s))
      \<and> list_all task_ok (tasks (edit_task cur accepted dlg now io s))
      \<and> list_all task_ok (tasks (toggle_task_completion cur io s))
      \<and> list_all task_ok (tasks (delete_task cur confirmed io s))
      \<and> list_all task_ok (tasks (fst (check_overdue_and_notifications clk_overdue clk ios s))))"
  by (simp add: get_task_data_ok task_ok_Task_init task_ok_edit_fields add_task_ok edit_task_ok
      toggle_task_completion_ok delete_task_ok sweep_ok)

lemma sample_get_task_data:
  "get_task_data sample_now sample_dialog
     = Some \<lparr>data_title = ''Report v2'', data_description = '''', data_priority = ''Medium'',
             data_deadline = \<lparr>year = 2030, month = 6, day = 1\<rparr>,
             data_deadline_time = \<lparr>hour = 9, minute = 0, second = 0, microsecond = 0\<rparr>,
             data_notify_enabled = True, data_notify_before_minutes = 60\<rparr>"
  by (simp add: get_task_data_def sample_now_def sample_dialog_def py_strip_def is_space_def
      timing_map_def dt_le_def dt_fields_def combine_def Let_def)

lemma sample_app_ok: "list_all task_ok (tasks sample_app)"
  by (simp add: sample_app_def sample_task_def task_ok_def allowed_minutes_def)

theorem form_tasks_ok_witness:
  "get_task_data sample_now sample_dialog \<noteq> None
   \<and> list_all task_ok (tasks sample_app)
   \<and> list_all task_ok (tasks (add_task True sample_dialog sample_now sample_now Written sample_app))
   \<and> length (tasks (add_task True sample_dialog sample_now sample_now Written sample_app)) = 3
   \<and> list_all task_ok (tasks (edit_task (Some 0) True sample_dialog sample_now Written sample_app))
   \<and> title (tasks (edit_task (Some 0) True sample_dialog sample_now Written sample_app) ! 0)
       = ''Report v2''"
proof -
  note th = form_tasks_ok [of sample_now sample_dialog _ sample_now _ sample_app True Written "Some 0"]
  have a: "get_task_data sample_now sample_dialog \<noteq> None"
    by (simp add: sample_get_task_data)
  from th sample_app_ok
  have b: "list_all task_ok (tasks (add_task True sample_dialog sample_now sample_now Written sample_app))"
    and c: "list_all task_ok (tasks (edit_task (Some 0) True sample_dialog sample_now Written sample_app))"
    by blast+
  have d: "length (tasks (add_task True sample_dialog sample_now sample_now Written sample_app)) = 3"
    by (simp add: add_task_def sample_get_task_data tasks_save_tasks sample_app_def)
  have e: "title (tasks (edit_task (Some 0) True sample_dialog sample_now Written sample_app) ! 0)
       = ''Report v2''"
    by (simp add: edit_task_def sample_get_task_data tasks_save_tasks sample_app_def
        edit_fields_def)
  from a sample_app_ok b c d e show ?thesis by blast
qed

text \<open>
  The claim as stated includes tasks loaded from disk. \<^verbatim>\<open>from_dict\<close> takes the title
  and \<^verbatim>\<open>notify_before_minutes\<close> from the file as they are: a record with an empty
  title and 7 minutes loads without any error, and the store then holds a task that
  violates both constraints.
\<close>

theorem load_unchecked:
  "messages (TodoApp_init (\<lambda>i. sample_now) (Some (Document [unchecked_record]))) = []
   \<and> length (tasks (TodoApp_init (\<lambda>i. sample_now) (Some (Document [unchecked_record])))) = 1
   \<and> title (tasks (TodoApp_init (\<lambda>i. sample_now) (Some (Document [unchecked_record]))) ! 0) = []
   \<and> notify_before_minutes
        (tasks (TodoApp_init (\<lambda>i. sample_now) (Some (Document [unchecked_record]))) ! 0) = 7
   \<and> \<not> list_all task_ok (tasks (TodoApp_init (\<lambda>i. sample_now) (Some (Document [unchecked_record]))))"
  by (simp add: TodoApp_init_def load_tasks_def from_dict_def parse_deadline_def
      parse_deadline_time_def get_or_def unchecked_record_def task_ok_def)

section \<open>The filtered, sorted view\<close>

lemma filter_tasks_matches:
  "filter_tasks clk (filter_name k) i ts
     = map snd (filter (\<lambda>(j, t). matches k (clk j) t) (enumerate i ts))"
  by (induction ts arbitrary: i) (cases k; simp)+

lemma priority_weight_weight: "priority_weight t = weight t"
  by (simp add: priority_weight_def weight_def priority_order_def)

lemma task_sort_key_le:
  "(task_sort_key a \<le> task_sort_key b) = shown_before a b"
  by (auto simp: task_sort_key_def shown_before_def deadline_rank_def priority_weight_weight
      less_eq_prod_def datetime_max_def dt_fields_def split: option.splits)

lemma update_task_list_sorted: "sorted_wrt shown_before (update_task_list clk text ts)"
proof -
  have "sorted (map task_sort_key (update_task_list clk text ts))"
    by (simp add: update_task_list_def)
  then show ?thesis
    by (simp add: sorted_map task_sort_key_le)
qed

lemma overdue_not_completed: "is_overdue now t \<Longrightarrow> \<not> completed t"
  by (auto simp: is_overdue_def split: option.splits if_splits)

lemma filter_tasks_overdue:
  "t \<in> set (filter_tasks clk ''Overdue'' i ts) \<Longrightarrow> \<not> completed t"
  by (induction ts arbitrary: i) (auto simp: overdue_not_completed split: if_splits)

text \<open>
  Claim C3. For each of the six filter kinds the view holds exactly the tasks that match
  the predicate of the kind (each task as often as it is in the list), ordered by
  priority weight descending, then deadline datetime ascending with tasks without a
  deadline ranked as the maximal datetime, then lower-cased title ascending. The Overdue
  view holds no completed task. For the tasks B (Low, no deadline), A (High, 2025-01-01)
  and C (High, 2024-01-01) the view of kind All is C, A, B.
\<close>

theorem update_task_list_spec:
  "mset (update_task_list clk (filter_name k) ts)
     = mset (map snd (filter (\<lambda>(j, t). matches k (clk j) t) (enumerate 0 ts)))
   \<and> sorted_wrt shown_before (update_task_list clk (filter_name k) ts)
   \<and> (\<forall>t \<in> set (update_task_list clk (filter_name Overdue) ts). \<not> completed t)
   \<and> map title (update_task_list clk (filter_name All) [task_B, task_A, task_C])
       = [''C'', ''A'', ''B'']"
proof (intro conjI)
  show "mset (update_task_list clk (filter_name k) ts)
     = mset (map snd (filter (\<lambda>(j, t). matches k (clk j) t) (enumerate 0 ts)))"
    by (simp add: update_task_list_def filter_tasks_matches)
  show "sorted_wrt shown_before (update_task_list clk (filter_name k) ts)"
    by (rule update_task_list_sorted)
  show "\<forall>t \<in> set (update_task_list clk (filter_name Overdue) ts). \<not> completed t"
    by (auto simp: update_task_list_def dest: filter_tasks_overdue)
  have "update_task_list clk ''All'' [task_B, task_A, task_C] = [task_C, task_A, task_B]"
    by (simp add: update_task_list_def task_A_def task_B_def task_C_def task_sort_key_def
        priority_weight_def priority_order_def get_deadline_datetime_def dt_fields_def
        combine_def end_of_day_def datetime_max_def py_lower_def py_lower_char_def
        less_eq_prod_def)
  then show "map title (update_task_list clk (filter_name All) [task_B, task_A, task_C])
       = [''C'', ''A'', ''B'']"
    by (simp add: task_A_def task_B_def task_C_def)
qed

theorem update_task_list_spec_witness:
  "completed task_done
   \<and> task_done \<notin> set (update_task_list (\<lambda>i. sample_now) ''Overdue'' [task_done, task_C])
   \<and> update_task_list (\<lambda>i. sample_now) ''Overdue'' [task_done, task_C] = [task_C]
   \<and> update_task_list (\<lambda>i. sample_now) ''Completed'' [task_done, task_C] = [task_done]"
proof -
  have c: "completed task_done"
    by (simp add: task_done_def)
  from update_task_list_spec [of "\<lambda>i. sample_now" Overdue "[task_done, task_C]"] c
  have a: "task_done \<notin> set (update_task_list (\<lambda>i. sample_now) ''Overdue'' [task_done, task_C])"
    by auto
  have o: "is_overdue sample_now task_C"
    by (simp add: is_overdue_def get_deadline_datetime_def task_C_def task_B_def sample_now_def
        dt_less_def dt_fields_def combine_def end_of_day_def)
  have no: "\<not> is_overdue sample_now task_done"
    by (simp add: is_overdue_def get_deadline_datetime_def task_done_def task_C_def task_B_def)
  have b: "update_task_list (\<lambda>i. sample_now) ''Overdue'' [task_done, task_C] = [task_C]"
    by (simp add: update_task_list_def o no)
  have nc: "\<not> completed task_C"
    by (simp add: task_C_def task_B_def)
  have d: "update_task_list (\<lambda>i. sample_now) ''Completed'' [task_done, task_C] = [task_done]"
    by (simp add: update_task_list_def c nc)
  from c a b d show ?thesis by blast
qed

section \<open>Formatting and parsing of dates and times\<close>

lemma is_digit_digit_char: "d < 10 \<Longrightarrow> is_digit (digit_char d)"
  by (simp add: is_digit_def digit_char_def)

lemma digit_val_digit_char: "d < 10 \<Longrightarrow> digit_val (digit_char d) = d"
  by (simp add: digit_val_def digit_char_def)

lemma digit_char_0: "digit_char 0 = CHR ''0''"
  by code_simp

lemma not_digit_colon: "\<not> is_digit (CHR '':'')" "\<not> is_digit (CHR ''-'')"
  "\<not> is_digit (CHR ''.'')" "\<not> is_digit (CHR ''T'')"
  by (simp_all add: is_digit_def)

lemma digit_char_neq: "d < 10 \<Longrightarrow> digit_char d \<noteq> CHR '':''"
  "d < 10 \<Longrightarrow> digit_char d \<noteq> CHR ''-''" "d < 10 \<Longrightarrow> digit_char d \<noteq> CHR ''+''"
  "d < 10 \<Longrightarrow> digit_char d \<noteq> CHR ''.''"
  using is_digit_digit_char [of d] by (auto simp: is_digit_def)

lemma digits_val_append: "digits_val (s @ [c]) = 10 * digits_val s + digit_val c"
  by (simp add: digits_val_def)

lemma digits_val_Nil: "digits_val [] = 0"
  by (simp add: digits_val_def)

lemma digits_val_zeros: "digits_val (replicate k (CHR ''0'') @ s) = digits_val s"
proof -
  have "foldl (\<lambda>a c. 10 * a + digit_val c) 0 (replicate k (CHR ''0'')) = 0"
    by (induction k) (simp_all add: digit_val_def)
  then show ?thesis
    by (simp add: digits_val_def)
qed

lemma dec_digits: "list_all is_digit (dec n)"
proof (induction n rule: dec.induct)
  case (1 n)
  show ?case
  proof (cases "n < 10")
    case True
    then show ?thesis by (simp add: dec.simps [of n] is_digit_digit_char)
  next
    case False
    with 1 show ?thesis by (simp add: dec.simps [of n] is_digit_digit_char)
  qed
qed

lemma digits_val_dec: "digits_val (dec n) = n"
proof (induction n rule: dec.induct)
  case (1 n)
  show ?case
  proof (cases "n < 10")
    case True
    then show ?thesis
      by (simp add: dec.simps [of n] digits_val_def digit_val_digit_char)
  next
    case False
    with 1 show ?thesis
      by (simp add: dec.simps [of n] digits_val_append digit_val_digit_char)
  qed
qed

lemma length_dec: "0 < w \<Longrightarrow> n < 10 ^ w \<Longrightarrow> length (dec n) \<le> w"
proof (induction n arbitrary: w rule: dec.induct)
  case (1 n)
  show ?case
  proof (cases "n < 10")
    case True
    then show ?thesis using "1.prems" by (simp add: dec.simps [of n] Suc_leI)
  next
    case False
    obtain v where w: "w = Suc v"
      using "1.prems"(1) by (cases w) auto
    have v0: "0 < v"
      using False "1.prems"(2) w by (cases v) auto
    have "n div 10 < 10 ^ v"
      using "1.prems"(2) w by (simp add: less_mult_imp_div_less mult.commute)
    from "1.IH" [OF False v0 this] show ?thesis
      using False w by (simp add: dec.simps [of n])
  qed
qed

lemma length_zfill: "0 < w \<Longrightarrow> n < 10 ^ w \<Longrightarrow> length (zfill w n) = w"
  using length_dec [of w n] by (simp add: zfill_def)

lemma zfill_digits: "list_all is_digit (zfill w n)"
proof -
  have "is_digit (CHR ''0'')"
    by (simp add: is_digit_def)
  then have "list_all is_digit (replicate k (CHR ''0''))" for k
    by (simp add: list_all_iff)
  then show ?thesis
    by (simp add: zfill_def dec_digits)
qed

lemma digits_val_zfill: "digits_val (zfill w n) = n"
  by (simp add: zfill_def digits_val_zeros digits_val_dec)

lemma parse_digits_zfill:
  "0 < w \<Longrightarrow> n < 10 ^ w \<Longrightarrow> parse_digits w (zfill w n @ rest) = Some (n, rest)"
  by (simp add: parse_digits_def length_zfill zfill_digits digits_val_zfill)

lemma zfill2: "n < 100 \<Longrightarrow> zfill 2 n = [digit_char (n div 10), digit_char (n mod 10)]"
proof (cases "n < 10")
  case True
  then show ?thesis
    by (simp add: zfill_def dec.simps [of n] digit_char_0)
next
  case False
  assume "n < 100"
  then have "n div 10 < 10" by simp
  then show ?thesis
    using False by (simp add: zfill_def dec.simps [of n] dec.simps [of "n div 10"])
qed

lemma digits_val_pair:
  "a < 10 \<Longrightarrow> b < 10 \<Longrightarrow> digits_val [digit_char a, digit_char b] = 10 * a + b"
  by (simp add: digits_val_def digit_val_digit_char)

lemma zfill2_digits:
  assumes "n < 100"
  shows "is_digit (digit_char (n div 10))" "is_digit (digit_char (n mod 10))"
    "digits_val [digit_char (n div 10), digit_char (n mod 10)] = n"
  using assms by (simp_all add: is_digit_digit_char digits_val_pair)

lemma strptime_field_zfill:
  assumes "n \<le> maxv" and "n < 100"
  shows "strptime_field maxv (zfill 2 n @ CHR '':'' # rest) = Some (n, rest)"
  using assms by (simp add: strptime_field_def zfill2 zfill2_digits)

lemma strptime_HMS_time_isoformat:
  assumes "valid_time t" and "microsecond t = 0"
  shows "strptime_HMS (time_isoformat t) = Some t"
proof -
  from assms(1) have h: "hour t \<le> 23" "hour t < 100" and m: "minute t \<le> 59" "minute t < 100"
    and s: "second t \<le> 59" "second t < 100"
    by (simp_all add: valid_time_def)
  show ?thesis
    using assms(2) s
    by (simp add: strptime_HMS_def time_isoformat_def strptime_field_zfill [OF h]
        strptime_field_zfill [OF m] zfill2 zfill2_digits)
qed

lemma strptime_HMS_fraction:
  assumes "valid_time t" and "microsecond t \<noteq> 0"
  shows "strptime_HMS (time_isoformat t) = None"
proof -
  from assms(1) have h: "hour t \<le> 23" "hour t < 100" and m: "minute t \<le> 59" "minute t < 100"
    and s: "second t < 100"
    by (simp_all add: valid_time_def)
  show ?thesis
    using assms(2) s
    by (simp add: strptime_HMS_def time_isoformat_def strptime_field_zfill [OF h]
        strptime_field_zfill [OF m] zfill2)
qed

lemma parse_digits_colon: "parse_digits 4 (a # b # CHR '':'' # rest) = None"
  by (simp add: parse_digits_def not_digit_colon)

lemma fromisoformat_time_isoformat:
  assumes "valid_time t"
  shows "datetime_fromisoformat (time_isoformat t) = Inl ValueError"
proof -
  from assms have "hour t < 100"
    by (simp add: valid_time_def)
  then show ?thesis
    by (simp add: datetime_fromisoformat_def parse_isoformat_date_def time_isoformat_def zfill2
        parse_digits_colon)
qed

lemma days_in_month_le: "days_in_month y m \<le> 31"
  by (simp add: days_in_month_def)

lemma parse_isoformat_date_format:
  assumes "valid_date d"
  shows "parse_isoformat_date (date_isoformat d @ rest) = Some (d, rest)"
proof -
  from assms have y: "year d < 10 ^ 4" and m: "month d < 10 ^ 2" and dd: "day d < 10 ^ 2"
    using days_in_month_le [of "year d" "month d"] by (simp_all add: valid_date_def)
  have p4: "parse_digits 4 (zfill 4 (year d) @ r) = Some (year d, r)" for r
    using y by (simp add: parse_digits_zfill)
  have p2m: "parse_digits 2 (zfill 2 (month d) @ r) = Some (month d, r)" for r
    using m by (simp add: parse_digits_zfill)
  have p2d: "parse_digits 2 (zfill 2 (day d) @ r) = Some (day d, r)" for r
    using dd by (simp add: parse_digits_zfill)
  show ?thesis
    by (simp add: parse_isoformat_date_def date_isoformat_def p4 p2m p2d)
qed

lemma fromisoformat_date_isoformat:
  assumes "valid_date d"
  shows "datetime_fromisoformat (date_isoformat d)
    = Inr (combine d \<lparr>hour = 0, minute = 0, second = 0, microsecond = 0\<rparr>)"
  using assms parse_isoformat_date_format [OF assms, of "[]"]
  by (simp add: datetime_fromisoformat_def valid_time_def)









section \<open>Loading and the round trip through the file\<close>

lemma digit_chars:
  "digit_char 0 = CHR ''0''" "digit_char 1 = CHR ''1''" "digit_char 2 = CHR ''2''"
  "digit_char 3 = CHR ''3''" "digit_char 4 = CHR ''4''" "digit_char 5 = CHR ''5''"
  "digit_char 6 = CHR ''6''" "digit_char 7 = CHR ''7''" "digit_char 8 = CHR ''8''"
  "digit_char 9 = CHR ''9''" "digit_char (Suc 0) = CHR ''1''"
  by code_simp+

lemma time_isoformat_not_Nil: "time_isoformat t \<noteq> []"
  by (simp add: time_isoformat_def)


lemma date_isoformat_not_Nil: "date_isoformat d \<noteq> []"
  by (simp add: date_isoformat_def)

lemma parse_deadline_time_bare:
  "valid_time tm \<Longrightarrow> microsecond tm = 0 \<Longrightarrow>
   parse_deadline_time (Some (time_isoformat tm)) = Some tm"
  by (simp add: parse_deadline_time_def time_isoformat_not_Nil strptime_HMS_time_isoformat)

lemma parse_deadline_time_fraction:
  "valid_time tm \<Longrightarrow> microsecond tm \<noteq> 0 \<Longrightarrow>
   parse_deadline_time (Some (time_isoformat tm)) = None"
  by (simp add: parse_deadline_time_def time_isoformat_not_Nil strptime_HMS_fraction
      fromisoformat_time_isoformat)



lemma parse_deadline_date:
  "valid_date d \<Longrightarrow> parse_deadline (Some (date_isoformat d)) = Inr (Some d)"
  by (simp add: parse_deadline_def date_isoformat_not_Nil fromisoformat_date_isoformat
      combine_def)






text \<open>
  Writing a task with \<^verbatim>\<open>to_dict\<close> and reading it back with \<^verbatim>\<open>from_dict\<close> gives the
  same task when its deadline time has whole seconds, and so does loading a saved list.
  A deadline time with a fraction of a second is written as HH:MM:SS.ffffff, which
  \<^verbatim>\<open>strptime\<close> with \<^verbatim>\<open>'%H:%M:%S'\<close> refuses and \<^verbatim>\<open>datetime.fromisoformat\<close>
  refuses as well, so the task comes back without its deadline time.
\<close>

lemma from_dict_to_dict:
  assumes "case deadline t of Some d \<Rightarrow> valid_date d | None \<Rightarrow> True"
    and "case deadline_time t of Some tm \<Rightarrow> valid_time tm \<and> microsecond tm = 0 | None \<Rightarrow> True"
  shows "from_dict now (to_dict t) = Inr t"
proof -
  have d: "parse_deadline (deadline_entry (to_dict t)) = Inr (deadline t)"
    using assms(1) by (simp add: to_dict_def parse_deadline_date split: option.splits)
      (simp add: parse_deadline_def)
  have tm: "parse_deadline_time (deadline_time_entry (to_dict t)) = deadline_time t"
    using assms(2) by (simp add: to_dict_def parse_deadline_time_bare split: option.splits)
      (simp add: parse_deadline_time_def)
  show ?thesis
    unfolding from_dict_def d tm by (simp add: to_dict_def get_or_def)
qed

lemma from_dict_to_dict_fraction:
  assumes "case deadline t of Some d \<Rightarrow> valid_date d | None \<Rightarrow> True"
    and "deadline_time t = Some tm" and "valid_time tm" and "microsecond tm \<noteq> 0"
  shows "from_dict now (to_dict t) = Inr (t\<lparr>deadline_time := None\<rparr>)"
proof -
  have d: "parse_deadline (deadline_entry (to_dict t)) = Inr (deadline t)"
    using assms(1) by (simp add: to_dict_def parse_deadline_date split: option.splits)
      (simp add: parse_deadline_def)
  have tm: "parse_deadline_time (deadline_time_entry (to_dict t)) = None"
    using assms(2-4) by (simp add: to_dict_def parse_deadline_time_fraction)
  show ?thesis
    unfolding from_dict_def d tm by (simp add: to_dict_def get_or_def)
qed

lemma from_dicts_to_dicts:
  "list_all whole_second_task ts \<Longrightarrow> from_dicts clk i (map to_dict ts) = Inr ts"
  by (induction ts arbitrary: i) (simp_all add: whole_second_task_def from_dict_to_dict)

lemma load_save:
  "list_all whole_second_task (tasks s) \<Longrightarrow>
   tasks (load_tasks clk (save_tasks Written s)) = tasks s"
  by (simp add: load_tasks_def save_tasks_def from_dicts_to_dicts)

text \<open>
  Claim C4 says that every field of every task, \<^verbatim>\<open>deadline_time\<close> included, comes back
  unchanged from \<^verbatim>\<open>to_dict\<close> followed by \<^verbatim>\<open>from_dict\<close>. The code at a task whose
  deadline time is 14:31:27.123000: the time is written as "14:31:27.123000" and read
  back as none, for the single task and for the saved and loaded list.
\<close>

theorem fractional_time_lost:
  "deadline_time fractional_task
     = Some \<lparr>hour = 14, minute = 31, second = 27, microsecond = 123000\<rparr>
   \<and> deadline_time_entry (to_dict fractional_task) = Some ''14:31:27.123000''
   \<and> from_dict sample_now (to_dict fractional_task)
       = Inr (fractional_task\<lparr>deadline_time := None\<rparr>)
   \<and> from_dict sample_now (to_dict fractional_task) \<noteq> Inr fractional_task
   \<and> tasks (load_tasks (\<lambda>i. sample_now)
         (save_tasks Written (sample_app\<lparr>tasks := [fractional_task]\<rparr>)))
       = [fractional_task\<lparr>deadline_time := None\<rparr>]"
proof -
  have a: "deadline_time fractional_task
     = Some \<lparr>hour = 14, minute = 31, second = 27, microsecond = 123000\<rparr>"
    by (simp add: fractional_task_def)
  have "time_isoformat \<lparr>hour = 14, minute = 31, second = 27, microsecond = 123000\<rparr>
      = ''14:31:27.123000''"
    by (simp add: time_isoformat_def zfill_def dec.simps digit_chars)
  then have b: "deadline_time_entry (to_dict fractional_task) = Some ''14:31:27.123000''"
    by (simp add: to_dict_def a)
  have v: "case deadline fractional_task of Some d \<Rightarrow> valid_date d | None \<Rightarrow> True"
    by (simp add: fractional_task_def sample_task_def valid_date_def days_in_month_def)
  have c: "from_dict sample_now (to_dict fractional_task)
       = Inr (fractional_task\<lparr>deadline_time := None\<rparr>)"
    by (rule from_dict_to_dict_fraction [OF v a]) (simp_all add: valid_time_def)
  have d: "fractional_task\<lparr>deadline_time := None\<rparr> \<noteq> fractional_task"
  proof
    assume "fractional_task\<lparr>deadline_time := None\<rparr> = fractional_task"
    then have "deadline_time (fractional_task\<lparr>deadline_time := None\<rparr>)
        = deadline_time fractional_task"
      by (rule arg_cong)
    with a show False by simp
  qed
  have e: "tasks (load_tasks (\<lambda>i. sample_now)
         (save_tasks Written (sample_app\<lparr>tasks := [fractional_task]\<rparr>)))
       = [fractional_task\<lparr>deadline_time := None\<rparr>]"
    by (simp add: load_tasks_def save_tasks_def c)
  from a b c d e show ?thesis by simp
qed

end
